theory Spec2Isabelle
  imports Main "HOL-Library.Sublist" "HOL-Library.List_Lexorder" "HOL-Library.Char_ord"
begin

section \<open>The Go library functions the services call\<close>

text \<open>
  Go strings are byte sequences; they are modelled as \<open>string\<close> (a list of 8-bit
  characters). Each library function below follows the documented behaviour of the
  Go function of the same name, for the arguments the services pass.
\<close>

subsection \<open>Package strings\<close>

definition HasPrefix :: "string \<Rightarrow> string \<Rightarrow> bool" where
  "HasPrefix s p = prefix p s"

definition HasSuffix :: "string \<Rightarrow> string \<Rightarrow> bool" where
  "HasSuffix s p = suffix p s"

definition TrimPrefix :: "string \<Rightarrow> string \<Rightarrow> string" where
  "TrimPrefix s p = (if HasPrefix s p then drop (length p) s else s)"

definition TrimSuffix :: "string \<Rightarrow> string \<Rightarrow> string" where
  "TrimSuffix s p = (if HasSuffix s p then take (length s - length p) s else s)"

text \<open>\<open>strings.TrimRight(s, "/")\<close>: all trailing slashes removed.\<close>

definition TrimRight_slash :: "string \<Rightarrow> string" where
  "TrimRight_slash s = rev (dropWhile (\<lambda>c. c = CHR ''/'') (rev s))"

text \<open>
  \<open>cut s sep\<close> is \<open>strings.Cut\<close>: the text before and after the first (leftmost)
  instance of \<open>sep\<close> in \<open>s\<close>, or \<open>None\<close> when \<open>sep\<close> does not occur.
\<close>

fun cut :: "string \<Rightarrow> string \<Rightarrow> (string \<times> string) option" where
  "cut [] sep = (if sep = [] then Some ([], []) else None)"
| "cut (c # cs) sep =
     (if prefix sep (c # cs) then Some ([], drop (length sep) (c # cs))
      else (case cut cs sep of None \<Rightarrow> None | Some (a, b) \<Rightarrow> Some (c # a, b)))"

definition Contains :: "string \<Rightarrow> string \<Rightarrow> bool" where
  "Contains s sub = (cut s sub \<noteq> None)"

text \<open>
  \<open>strings.SplitN(s, sep, n)\<close> for a non-empty separator and \<open>n \<ge> 0\<close>: at most \<open>n\<close>
  substrings, the last one the unsplit remainder; \<open>n = 0\<close> gives no substrings.
\<close>

fun SplitN :: "string \<Rightarrow> string \<Rightarrow> nat \<Rightarrow> string list" where
  "SplitN s sep 0 = []"
| "SplitN s sep (Suc 0) = [s]"
| "SplitN s sep (Suc (Suc n)) =
     (case cut s sep of None \<Rightarrow> [s] | Some (a, b) \<Rightarrow> a # SplitN b sep (Suc n))"

text \<open>
  \<open>strings.Count(s, sep)\<close>, the number of non-overlapping instances of a single-byte
  separator, and \<open>strings.Split(s, sep)\<close>, which Go computes as
  \<open>SplitN(s, sep, Count(s, sep) + 1)\<close>.
\<close>

definition Count :: "string \<Rightarrow> char \<Rightarrow> nat" where
  "Count s c = length (filter (\<lambda>x. x = c) s)"

definition Split :: "string \<Rightarrow> char \<Rightarrow> string list" where
  "Split s c = SplitN s [c] (Count s c + 1)"

definition join_with :: "string \<Rightarrow> string list \<Rightarrow> string" where
  "join_with sep xs = (case xs of [] \<Rightarrow> [] | y # ys \<Rightarrow> y @ concat (map (\<lambda>z. sep @ z) ys))"

subsection \<open>Package fmt: the verb \<open>%d\<close>\<close>

definition digit_char :: "int \<Rightarrow> char" where
  "digit_char d = ''0123456789'' ! nat d"

text \<open>
  A Go \<open>int\<close> has 64 bits, so its decimal form has at most 19 digits: \<open>dec_digits k n\<close>
  is the decimal form of \<open>n \<ge> 0\<close> when it has at most \<open>k\<close> digits.
\<close>

fun dec_digits :: "nat \<Rightarrow> int \<Rightarrow> string" where
  "dec_digits 0 n = []"
| "dec_digits (Suc k) n =
     (if n < 10 then [digit_char n] else dec_digits k (n div 10) @ [digit_char (n mod 10)])"

definition fmt_d :: "int \<Rightarrow> string" where
  "fmt_d i = (if i < 0 then CHR ''-'' # dec_digits 19 (- i) else dec_digits 19 i)"

subsection \<open>Packages path and path/filepath (Unix)\<close>

text \<open>
  \<open>elements p\<close> are the parts of \<open>p\<close> between slashes. \<open>Clean\<close> processes them left to
  right as \<open>path.Clean\<close> does: empty and \<open>.\<close> elements are dropped, \<open>..\<close> removes the
  element before it (at the root it is dropped; in a relative path with nothing left
  to remove it is kept), and the empty result is \<open>.\<close>. The stack is kept reversed.
\<close>

fun elements :: "string \<Rightarrow> string list" where
  "elements [] = [[]]"
| "elements (c # cs) =
     (if c = CHR ''/'' then [] # elements cs
      else (case elements cs of [] \<Rightarrow> [[c]] | f # fs \<Rightarrow> (c # f) # fs))"

definition clean_step :: "bool \<Rightarrow> string \<Rightarrow> string list \<Rightarrow> string list" where
  "clean_step rooted c st =
     (if c = [] \<or> c = ''.'' then st
      else if c = ''..'' then
        (case st of
           [] \<Rightarrow> if rooted then [] else [''..'']
         | t # ts \<Rightarrow> if t = ''..'' then ''..'' # st else ts)
      else c # st)"

definition clean_elems :: "string \<Rightarrow> string list" where
  "clean_elems p = rev (fold (clean_step (HasPrefix p ''/'')) (elements p) [])"

definition Clean :: "string \<Rightarrow> string" where
  "Clean p =
     (if p = [] then ''.''
      else if HasPrefix p ''/'' then CHR ''/'' # join_with ''/'' (clean_elems p)
      else if clean_elems p = [] then ''.''
      else join_with ''/'' (clean_elems p))"

text \<open>\<open>Join\<close>: empty elements are ignored, the rest joined by slashes and cleaned.\<close>

definition Join :: "string list \<Rightarrow> string" where
  "Join elems =
     (let ne = filter (\<lambda>e. e \<noteq> []) elems
      in if ne = [] then [] else Clean (join_with ''/'' ne))"

text \<open>
  \<open>filepath.Dir\<close>: the path up to and including its last slash, cleaned.
\<close>

definition Dir :: "string \<Rightarrow> string" where
  "Dir p = Clean (rev (dropWhile (\<lambda>c. c \<noteq> CHR ''/'') (rev p)))"

section \<open>Transcoder service: the master playlist\<close>

text \<open>
  A Go map literal is an association list read with \<open>map_of\<close>; indexing a map with a
  missing key gives the zero value of the element type.
\<close>

definition bw :: "(string \<times> int) list" where
  "bw = [(''1080p'', 5192000), (''720p'', 2928000), (''480p'', 1496000), (''360p'', 864000)]"

definition resMap :: "(string \<times> string) list" where
  "resMap = [(''1080p'', ''1920x1080''), (''720p'', ''1280x720''),
             (''480p'', ''854x480''), (''360p'', ''640x360'')]"

definition index_int :: "(string \<times> int) list \<Rightarrow> string \<Rightarrow> int" where
  "index_int m k = (case map_of m k of None \<Rightarrow> 0 | Some v \<Rightarrow> v)"

definition index_str :: "(string \<times> string) list \<Rightarrow> string \<Rightarrow> string" where
  "index_str m k = (case map_of m k of None \<Rightarrow> [] | Some v \<Rightarrow> v)"

definition default_ladder :: "string list" where
  "default_ladder = [''1080p'', ''720p'', ''480p'', ''360p'']"

text \<open>The body of the loop of \<open>buildMaster\<close>: two \<open>Sprintf\<close> results appended to \<open>s\<close>.\<close>

definition master_step :: "string \<Rightarrow> string \<Rightarrow> string" where
  "master_step r s =
     (s @ ''#EXT-X-STREAM-INF:BANDWIDTH='' @ fmt_d (index_int bw r) @ '',RESOLUTION=''
        @ index_str resMap r @ ''\<newline>'')
     @ r @ ''/index.m3u8\<newline>''"


definition buildMaster :: "string \<Rightarrow> string \<Rightarrow> string list \<Rightarrow> string" where
  "buildMaster userId uploadId ladder =
     (let ladder = (if length ladder = 0 then default_ladder else ladder)
      in fold master_step ladder ''#EXTM3U\<newline>'')"

text \<open>
  The manifest as the specification words it: the header, then per label one stream
  entry with the bandwidth of the table and the reference line \<open><label>/index.m3u8\<close>.
\<close>

definition spec_bandwidth :: "string \<Rightarrow> string" where
  "spec_bandwidth r =
     (if r = ''720p'' then ''2928000'' else if r = ''360p'' then ''864000''
      else if r = ''1080p'' then ''5192000'' else if r = ''480p'' then ''1496000'' else ''0'')"

definition spec_resolution :: "string \<Rightarrow> string" where
  "spec_resolution r =
     (if r = ''1080p'' then ''1920x1080'' else if r = ''720p'' then ''1280x720''
      else if r = ''480p'' then ''854x480'' else if r = ''360p'' then ''640x360'' else [])"

definition spec_entry :: "string \<Rightarrow> string" where
  "spec_entry r =
     ''#EXT-X-STREAM-INF:BANDWIDTH='' @ spec_bandwidth r @ '',RESOLUTION='' @ spec_resolution r
       @ ''\<newline>'' @ r @ ''/index.m3u8\<newline>''"

definition spec_manifest :: "string list \<Rightarrow> string" where
  "spec_manifest L = ''#EXTM3U\<newline>'' @ concat (map spec_entry L)"

definition renditions :: "string list" where
  "renditions = [''1080p'', ''720p'', ''480p'', ''360p'']"

section \<open>Transcoder service: the job handler\<close>

text \<open>
  The upload event, with the field names of its JSON encoding. \<open>json.Unmarshal\<close> is
  modelled by its outcome: the handler receives \<open>None\<close> for a body that does not
  decode and the decoded event otherwise (an absent field decodes to the empty
  value).
\<close>

record UploadEvent =
  uploadId :: string
  userId :: string
  username :: string
  originalFilename :: string
  title :: string
  description :: string
  tags :: "string list"
  isPrivate :: bool
  category :: string
  rawVideoPath :: string
  containerName :: string
  blobUrl :: string
  resolutions :: "string list"

text \<open>The completion event is a \<open>map[string]any\<close>: a JSON object.\<close>

datatype json =
    JString string
  | JBool bool
  | JArray "json list"
  | JObject "(string \<times> json) list"

datatype error =
    JsonError
  | MissingRequiredFields
  | OsError string
  | DownloadError
  | FfmpegError string
  | UploadHlsError
  | PublishError

text \<open>
  The environment of a job attempt. Each field is the outcome of one operation the
  handler performs on its surroundings:
  \<^item> \<open>TempDir\<close>, \<open>getenv\<close>: \<open>os.TempDir()\<close> and \<open>os.Getenv\<close>;
  \<^item> \<open>read_secret\<close>: the content of a mounted secret file with surrounding white space
    removed, \<open>None\<close> when the file cannot be read;
  \<^item> \<open>mkdir_ok\<close>, \<open>create_ok\<close>, \<open>write_ok\<close>: whether \<open>os.MkdirAll\<close>, \<open>os.Create\<close>,
    \<open>os.WriteFile\<close> succeed on a path;
  \<^item> \<open>raw_object\<close>: the object of the raw bucket under a key, \<open>None\<close> when the download
    fails;
  \<^item> \<open>put_ok\<close>: whether the upload of a key to the processed bucket succeeds;
  \<^item> \<open>publish_ok\<close>: whether \<open>PublishJSON\<close> succeeds for an event;
  \<^item> \<open>ffmpeg_thumbnail\<close>: the frame extracted from the input, \<open>None\<close> when the command
    fails.
\<close>

text \<open>
  Modelled from the spec: the package \<open>internal/ffmpeg\<close> (\<open>BuildHLSCommand\<close>) is not
  among the sources. Following the specification's Encoder Adapter ("given an input
  file, an output directory, and a rendition profile, produces a segmented manifest
  plus media segments, or fails"), \<open>ffmpeg_hls input res\<close> is \<open>None\<close> when the command
  fails and otherwise the files it leaves in the output directory, as names with
  contents.
\<close>

record env =
  TempDir :: string
  getenv :: "string \<Rightarrow> string"
  read_secret :: "string \<Rightarrow> string option"
  mkdir_ok :: "string \<Rightarrow> bool"
  create_ok :: "string \<Rightarrow> bool"
  write_ok :: "string \<Rightarrow> bool"
  raw_object :: "string \<Rightarrow> string option"
  put_ok :: "string \<Rightarrow> bool"
  publish_ok :: "json \<Rightarrow> bool"
  ffmpeg_hls :: "string \<Rightarrow> string \<Rightarrow> (string \<times> string) list option"
  ffmpeg_thumbnail :: "string \<Rightarrow> string option"

text \<open>
  What a job attempt does outside its own memory, in order. Operations on local
  paths are listed when attempted; an upload or a publication that fails is listed as
  such. Log output and timing are not modelled.
\<close>

datatype effect =
    MkdirAll string
  | Create string
  | Download string
  | RunHLS string string
  | WriteFile string
  | Upload string string
  | UploadFailed string
  | RunThumbnail string
  | Publish json
  | PublishFailed json
  | RemoveAll string

text \<open>
  The processed bucket and the list of published events after a sequence of effects.
\<close>

definition apply_effect :: "effect \<Rightarrow> (string \<rightharpoonup> string) \<Rightarrow> (string \<rightharpoonup> string)" where
  "apply_effect x bucket = (case x of Upload k data \<Rightarrow> bucket(k \<mapsto> data) | _ \<Rightarrow> bucket)"

definition processed_after :: "effect list \<Rightarrow> (string \<rightharpoonup> string) \<Rightarrow> (string \<rightharpoonup> string)" where
  "processed_after xs bucket = fold apply_effect xs bucket"

definition published :: "effect list \<Rightarrow> json list" where
  "published xs = concat (map (\<lambda>x. case x of Publish j \<Rightarrow> [j] | _ \<Rightarrow> []) xs)"

definition uploaded_keys :: "effect list \<Rightarrow> string list" where
  "uploaded_keys xs =
     concat (map (\<lambda>x. case x of Upload k data \<Rightarrow> [k] | UploadFailed k \<Rightarrow> [k] | _ \<Rightarrow> []) xs)"

text \<open>
  The workspace of the attempt: the files below \<open>work\<close>, as cleaned paths with
  contents. It is owned by the attempt, taken to be empty when the attempt starts,
  and removed when \<open>Handle\<close> returns, so it is a value local to the handler.
\<close>

type_synonym files = "(string \<times> string) list"

definition write_file :: "string \<Rightarrow> string \<Rightarrow> files \<Rightarrow> files" where
  "write_file path data fs = (path, data) # filter (\<lambda>f. fst f \<noteq> path) fs"

definition getSecret :: "env \<Rightarrow> string \<Rightarrow> string \<Rightarrow> string" where
  "getSecret e filePath envVar =
     (case read_secret e filePath of Some data \<Rightarrow> data | None \<Rightarrow> getenv e envVar)"

definition buildAzureURL :: "env \<Rightarrow> string \<Rightarrow> string" where
  "buildAzureURL e blobPath =
     (let base = getenv e ''MINIO_PUBLIC_BASE'' in
      if base \<noteq> [] then TrimRight_slash base @ ''/'' @ blobPath
      else
        (let endpoint = getSecret e ''/mnt/secrets-store/minio-endpoint'' ''MINIO_ENDPOINT'';
             endpoint = (if endpoint = [] then getenv e ''MINIO_ENDPOINT'' else endpoint);
             port = getSecret e ''/mnt/secrets-store/minio-port'' ''MINIO_PORT'';
             port = (if port = [] then getenv e ''MINIO_PORT'' else port)
         in if endpoint = [] then ''/'' @ blobPath
            else
              (let scheme = (if getenv e ''MINIO_USE_SSL'' = ''true'' then ''https'' else ''http'');
                   host = (if port \<noteq> [] then endpoint @ '':'' @ port else endpoint)
               in scheme @ ''://'' @ host @ ''/'' @ blobPath)))"

text \<open>
  \<open>DownloadTo\<close>: the directory of the local path is created, the file is created, the
  object is downloaded into it. The result is the downloaded content.
\<close>

definition DownloadTo :: "env \<Rightarrow> string \<Rightarrow> string \<Rightarrow> (error + string) \<times> effect list" where
  "DownloadTo e blobPath localPath =
     (if \<not> mkdir_ok e (Dir localPath) then (Inl (OsError (Dir localPath)), [MkdirAll (Dir localPath)])
      else if \<not> create_ok e (Clean localPath) then
        (Inl (OsError (Clean localPath)), [MkdirAll (Dir localPath), Create (Clean localPath)])
      else
        (case raw_object e blobPath of
           None \<Rightarrow>
             (Inl DownloadError,
              [MkdirAll (Dir localPath), Create (Clean localPath), Download blobPath])
         | Some data \<Rightarrow>
             (Inr data, [MkdirAll (Dir localPath), Create (Clean localPath), Download blobPath])))"

text \<open>
  \<open>UploadDir\<close>: \<open>filepath.WalkDir\<close> visits the files below the root in lexical order of
  their path elements; for a file below the root, \<open>filepath.Rel\<close> is the path with the
  root and the slash after it removed. The walk stops at the first upload that fails.
\<close>

definition walk :: "files \<Rightarrow> string \<Rightarrow> files" where
  "walk fs localRoot =
     sort_key (\<lambda>f. elements (fst f)) (filter (\<lambda>f. HasPrefix (fst f) (localRoot @ ''/'')) fs)"

definition UploadFile :: "env \<Rightarrow> string \<Rightarrow> string \<Rightarrow> (error + unit) \<times> effect list" where
  "UploadFile e data blobPath =
     (if put_ok e blobPath then (Inr (), [Upload blobPath data])
      else (Inl UploadHlsError, [UploadFailed blobPath]))"

fun upload_walk :: "env \<Rightarrow> string \<Rightarrow> string \<Rightarrow> files \<Rightarrow> (error + unit) \<times> effect list" where
  "upload_walk e localRoot blobPrefix [] = (Inr (), [])"
| "upload_walk e localRoot blobPrefix (f # fs) =
     (let rel = TrimPrefix (fst f) (localRoot @ ''/'');
          blobName = Join [blobPrefix, rel]
      in case UploadFile e (snd f) blobName of
           (Inl err, xs) \<Rightarrow> (Inl err, xs)
         | (Inr u, xs) \<Rightarrow>
             (case upload_walk e localRoot blobPrefix fs of (r, ys) \<Rightarrow> (r, xs @ ys)))"

definition UploadDir :: "env \<Rightarrow> files \<Rightarrow> string \<Rightarrow> string \<Rightarrow> (error + unit) \<times> effect list" where
  "UploadDir e fs localRoot blobPrefix = upload_walk e localRoot blobPrefix (walk fs localRoot)"

text \<open>
  The loop over the ladder: per label the output directory is created and the
  encoder run; the first failure ends the loop and the job. The files the encoder
  leaves are added to the workspace.
\<close>

fun encode_ladder ::
  "env \<Rightarrow> string \<Rightarrow> string \<Rightarrow> string list \<Rightarrow> files \<Rightarrow> (error + files) \<times> effect list" where
  "encode_ladder e input outRoot [] fs = (Inr fs, [])"
| "encode_ladder e input outRoot (res # ladder) fs =
     (let resDir = Join [outRoot, res] in
      if \<not> mkdir_ok e resDir then (Inl (OsError resDir), [MkdirAll resDir])
      else
        (case ffmpeg_hls e input res of
           None \<Rightarrow> (Inl (FfmpegError res), [MkdirAll resDir, RunHLS resDir res])
         | Some out \<Rightarrow>
             (case encode_ladder e input outRoot ladder
                     (fold (\<lambda>f. write_file (Join [resDir, fst f]) (snd f)) out fs) of
                (r, xs) \<Rightarrow> (r, MkdirAll resDir # RunHLS resDir res # xs))))"

definition completion_event :: "env \<Rightarrow> UploadEvent \<Rightarrow> string \<Rightarrow> string \<Rightarrow> json" where
  "completion_event e evt base thumbnailURL =
     JObject [
       (''uploadId'', JString (uploadId evt)),
       (''userId'', JString (userId evt)),
       (''title'', JString (title evt)),
       (''description'', JString (description evt)),
       (''tags'', JArray (map JString (tags evt))),
       (''category'', JString (category evt)),
       (''isPrivate'', JBool (isPrivate evt)),
       (''originalFilename'', JString (originalFilename evt)),
       (''rawVideoPath'', JString (rawVideoPath evt)),
       (''hls'', JObject [(''masterUrl'', JString (buildAzureURL e (base @ ''/'' @ ''master.m3u8'')))]),
       (''thumbnailUrl'', JString thumbnailURL),
       (''ready'', JBool True)]"

text \<open>
  The thumbnail step and the publication, the part of \<open>Handle\<close> after the upload of
  the HLS tree. Neither failure of the thumbnail step is an error of the job.
\<close>

definition thumbnail_and_publish ::
  "env \<Rightarrow> UploadEvent \<Rightarrow> string \<Rightarrow> string \<Rightarrow> string \<Rightarrow> (error + unit) \<times> effect list" where
  "thumbnail_and_publish e evt work input base =
     (let thumbPath = Join [work, ''thumb.jpg''];
          (thumbnailURL, xs) =
            (case ffmpeg_thumbnail e input of
               None \<Rightarrow> ([], [RunThumbnail thumbPath])
             | Some frame \<Rightarrow>
                 (let thumbBlobPath = ''thumbnails/'' @ userId evt @ ''/'' @ uploadId evt @ ''.jpg''
                  in case UploadFile e frame thumbBlobPath of
                       (Inr u, ys) \<Rightarrow> (buildAzureURL e thumbBlobPath, RunThumbnail thumbPath # ys)
                     | (Inl err, ys) \<Rightarrow> ([], RunThumbnail thumbPath # ys)));
          out = completion_event e evt base thumbnailURL
      in if publish_ok e out then (Inr (), xs @ [Publish out])
         else (Inl PublishError, xs @ [PublishFailed out]))"

text \<open>
  The part of \<open>Handle\<close> that runs inside the workspace, in two stages: from the
  download to the upload of the HLS tree (its result is the downloaded input), then
  the thumbnail and the publication.
\<close>

definition hls_base :: "UploadEvent \<Rightarrow> string" where
  "hls_base evt = ''hls/'' @ userId evt @ ''/'' @ uploadId evt"

definition ladder_of :: "UploadEvent \<Rightarrow> string list" where
  "ladder_of evt = (if length (resolutions evt) = 0 then default_ladder else resolutions evt)"

definition transcode_and_upload ::
  "env \<Rightarrow> UploadEvent \<Rightarrow> string \<Rightarrow> (error + string) \<times> effect list" where
  "transcode_and_upload e evt work =
     (let inputPath = Join [work, ''input.mp4''] in
      case DownloadTo e (rawVideoPath evt) inputPath of
        (Inl err, xs) \<Rightarrow> (Inl err, xs)
      | (Inr input, xs) \<Rightarrow>
          (let fs = write_file inputPath input [];
               outRoot = Join [work, ''hls'']
           in if \<not> mkdir_ok e outRoot then (Inl (OsError outRoot), xs @ [MkdirAll outRoot])
              else
                (let ladder = ladder_of evt
                 in case encode_ladder e input outRoot ladder fs of
                      (Inl err, ys) \<Rightarrow> (Inl err, xs @ MkdirAll outRoot # ys)
                    | (Inr fs, ys) \<Rightarrow>
                        (let masterPath = Join [outRoot, ''master.m3u8''] in
                         if \<not> write_ok e masterPath then
                           (Inl (OsError masterPath),
                            xs @ MkdirAll outRoot # ys @ [WriteFile masterPath])
                         else
                           (let fs = write_file masterPath
                                       (buildMaster (userId evt) (uploadId evt) ladder) fs;
                                base = hls_base evt
                            in case UploadDir e fs outRoot base of
                                 (Inl err, zs) \<Rightarrow>
                                   (Inl err, xs @ MkdirAll outRoot # ys @ WriteFile masterPath # zs)
                               | (Inr u, zs) \<Rightarrow>
                                   (Inr input,
                                    xs @ MkdirAll outRoot # ys @ WriteFile masterPath # zs))))))"

definition run_job :: "env \<Rightarrow> UploadEvent \<Rightarrow> string \<Rightarrow> (error + unit) \<times> effect list" where
  "run_job e evt work =
     (case transcode_and_upload e evt work of
        (Inl err, xs) \<Rightarrow> (Inl err, xs)
      | (Inr input, xs) \<Rightarrow>
          (case thumbnail_and_publish e evt work input (hls_base evt) of
             (r, ts) \<Rightarrow> (r, xs @ ts)))"

text \<open>
  \<open>Handle\<close>: the decoded event is validated, the workspace created, the job run, and
  the workspace removed on every return after its creation (the deferred
  \<open>os.RemoveAll\<close>).
\<close>

definition Handle :: "env \<Rightarrow> UploadEvent option \<Rightarrow> (error + unit) \<times> effect list" where
  "Handle e body =
     (case body of
        None \<Rightarrow> (Inl JsonError, [])
      | Some evt \<Rightarrow>
          if uploadId evt = [] \<or> userId evt = [] \<or> rawVideoPath evt = [] then
            (Inl MissingRequiredFields, [])
          else
            (let work = Join [TempDir e, ''transcoder-'' @ uploadId evt] in
             if \<not> mkdir_ok e work then (Inl (OsError work), [MkdirAll work])
             else (case run_job e evt work of
                     (r, xs) \<Rightarrow> (r, MkdirAll work # xs @ [RemoveAll work]))))"

section \<open>Playback service: resolving a stored URL to a blob path\<close>

definition azure_marker :: string where
  "azure_marker = ''.blob.core.windows.net/''"

text \<open>
  \<open>extractBlobPath\<close> is a method of the handler and reads only its \<open>bucket\<close> field,
  which is passed here as the first argument. The two guarded blocks of the source
  fall through to the next one when their inner length test fails.
\<close>

definition extractBlobPath :: "string \<Rightarrow> string \<Rightarrow> string" where
  "extractBlobPath bucket url =
     (if Contains url azure_marker \<and> length (SplitN url azure_marker 2) = 2 then
        (let p = TrimPrefix (SplitN url azure_marker 2 ! 1) (bucket @ ''/'')
         in TrimPrefix p ''/'')
      else if (HasPrefix url ''http://'' \<or> HasPrefix url ''https://'')
              \<and> length (SplitN url ''/'' 4) \<ge> 4 then
        (let p = SplitN url ''/'' 4 ! 3;
             p = TrimPrefix p (bucket @ ''/'')
         in TrimPrefix p ''/'')
      else TrimPrefix url ''/'')"

definition blobBase :: "string \<Rightarrow> string \<Rightarrow> string" where
  "blobBase bucket masterURL = TrimSuffix (extractBlobPath bucket masterURL) ''/master.m3u8''"

definition baseHLSPath :: "string \<Rightarrow> string" where
  "baseHLSPath master = TrimSuffix master ''/master.m3u8''"

definition allowedRendition :: "string \<Rightarrow> bool" where
  "allowedRendition r = (r = ''1080p'' \<or> r = ''720p'' \<or> r = ''480p'' \<or> r = ''360p'')"

section \<open>Playback service: the request handlers\<close>

text \<open>
  The fields of \<open>models.Video\<close> that the four operations read. The handler's
  collaborators are fields of the \<open>handler\<close> record: \<open>db\<close> is the outcome of the query
  \<open>Where("upload_id = ?", id).First(&v)\<close> (\<open>None\<close> when it reports an error),
  \<open>download\<close> the outcome of \<open>downloader.Download\<close> for a key of the bucket, \<open>http_get\<close>
  the outcome of \<open>client.Get\<close> with the body read in full, \<open>s3client\<close> and \<open>cache\<close>
  tell whether the two pointers are non-nil. The cache service (\<open>GenerateKey\<close>, \<open>Get\<close>,
  \<open>Set\<close>) is a parameter: \<open>cache_Get\<close> returns the bytes (\<open>None\<close> for a nil slice) and
  whether it reported an error, \<open>cache_Set\<close> the new store and whether it reported an
  error; \<open>'c\<close> is the type of the cache store.
\<close>

record video =
  UploadID :: string
  UserID :: string
  HLSMasterURL :: string
  ThumbnailURL :: string

record http_response =
  StatusCode :: nat
  Header :: "(string \<times> string list) list"
  Body :: string

record 'c handler =
  db :: "string \<Rightarrow> video option"
  s3client :: bool
  bucket :: string
  download :: "string \<Rightarrow> string option"
  http_get :: "string \<Rightarrow> http_response option"
  cache :: bool
  GenerateKey :: "string \<Rightarrow> string \<Rightarrow> string \<Rightarrow> string"
  cache_Get :: "'c \<Rightarrow> string \<Rightarrow> string option \<times> bool"
  cache_Set :: "'c \<Rightarrow> string \<Rightarrow> string \<Rightarrow> 'c \<times> bool"

text \<open>
  What a request does outside the process is recorded in order; the cache store is
  the only state a request changes.
\<close>

datatype access =
    DbQuery string
  | StorageGet string
  | HttpGet string
  | CacheGet string
  | CacheSet string
  | Log string

record 'c world =
  store :: 'c
  trace :: "access list"

text \<open>
  A reply is a status, the headers the handler sets with \<open>c.Header\<close>, and the body.
  \<open>Redirect code url\<close> is the call \<open>c.Redirect(code, url)\<close> with the URL as the handler
  passes it; the \<open>Location\<close> header that \<open>net/http\<close> derives from it (a relative URL
  is resolved against the path of the request) is not modelled.
\<close>

datatype response =
    Reply nat "(string \<times> string) list" string
  | Redirect nat string

definition record_access :: "access list \<Rightarrow> 'c world \<Rightarrow> 'c world" where
  "record_access as w = w\<lparr>trace := trace w @ as\<rparr>"

text \<open>\<open>c.Header(k, v)\<close> replaces the header \<open>k\<close>; with an empty value it deletes it.\<close>

definition set_header :: "string \<Rightarrow> string \<Rightarrow> (string \<times> string) list \<Rightarrow> (string \<times> string) list" where
  "set_header k v hs =
     (if v = [] then filter (\<lambda>kv. fst kv \<noteq> k) hs
      else filter (\<lambda>kv. fst kv \<noteq> k) hs @ [(k, v)])"

definition mpegurl :: "(string \<times> string) list" where
  "mpegurl = [(''Content-Type'', ''application/vnd.apple.mpegurl'')]"

definition downloadBlob :: "'c handler \<Rightarrow> 'c world \<Rightarrow> string \<Rightarrow> string option \<times> 'c world" where
  "downloadBlob h w path =
     (if s3client h then (download h path, record_access [StorageGet path] w)
      else (case http_get h path of
              None \<Rightarrow> (None, record_access [HttpGet path] w)
            | Some resp \<Rightarrow> (Some (Body resp), record_access [HttpGet path] w)))"

subsection \<open>The rewrite of the master playlist\<close>

text \<open>
  The pattern is \<open>(?m)^(1080p|720p|480p|360p)/index.m3u8$\<close>. In multi-line mode \<open>^\<close> and
  \<open>$\<close> match at the ends of the text and next to a newline, and no element of the
  pattern matches a newline, so the matches are exactly the whole lines of the form
  label, \<open>/index\<close>, one character matched by the unescaped dot, \<open>m3u8\<close>. The dot matches
  one UTF-8 encoded code point other than newline, or one byte that does not start a
  valid encoding.
\<close>

definition byte_in :: "nat \<Rightarrow> char \<Rightarrow> nat \<Rightarrow> bool" where
  "byte_in lo c hi = (lo \<le> of_char c \<and> (of_char c :: nat) \<le> hi)"

fun valid_multibyte :: "string \<Rightarrow> bool" where
  "valid_multibyte [a, b] = (byte_in 194 a 223 \<and> byte_in 128 b 191)"
| "valid_multibyte [a, b, c] =
     ((byte_in 224 a 224 \<and> byte_in 160 b 191 \<or> byte_in 225 a 236 \<and> byte_in 128 b 191
       \<or> byte_in 237 a 237 \<and> byte_in 128 b 159 \<or> byte_in 238 a 239 \<and> byte_in 128 b 191)
      \<and> byte_in 128 c 191)"
| "valid_multibyte [a, b, c, d] =
     ((byte_in 240 a 240 \<and> byte_in 144 b 191 \<or> byte_in 241 a 243 \<and> byte_in 128 b 191
       \<or> byte_in 244 a 244 \<and> byte_in 128 b 143)
      \<and> byte_in 128 c 191 \<and> byte_in 128 d 191)"
| "valid_multibyte _ = False"

definition dot_matches :: "string \<Rightarrow> bool" where
  "dot_matches x = (length x = 1 \<and> x \<noteq> ''\<newline>'' \<or> valid_multibyte x)"

definition line_matches :: "string \<Rightarrow> bool" where
  "line_matches l =
     list_ex (\<lambda>lab. HasPrefix l (lab @ ''/index'') \<and>
        (let rest = drop (length lab + 6) l
         in HasSuffix rest ''m3u8'' \<and> dot_matches (take (length rest - 4) rest)))
       [''1080p'', ''720p'', ''480p'', ''360p'']"

text \<open>The function passed to \<open>ReplaceAllStringFunc\<close>.\<close>

definition rewrite_match :: "string \<Rightarrow> string" where
  "rewrite_match s = (let parts = Split s (CHR ''/'') in Join [parts ! 0, ''index.m3u8''])"

definition rewrite_master :: "string \<Rightarrow> string" where
  "rewrite_master b =
     join_with ''\<newline>''
       (map (\<lambda>l. if line_matches l then rewrite_match l else l) (Split b (CHR ''\<newline>'')))"

subsection \<open>The four operations\<close>

definition GetMaster :: "'c handler \<Rightarrow> 'c world \<Rightarrow> string \<Rightarrow> response \<times> 'c world" where
  "GetMaster h w uploadID =
     (let w = record_access [DbQuery uploadID] w in
      case db h uploadID of
        None \<Rightarrow> (Reply 404 [] ''not found'', w)
      | Some v \<Rightarrow>
          if HLSMasterURL v = [] then (Reply 400 [] ''master not ready'', w)
          else if \<not> s3client h then
            (case http_get h (HLSMasterURL v) of
               None \<Rightarrow>
                 (Reply 502 [] ''upstream error'',
                  record_access [HttpGet (HLSMasterURL v), Log ''fetch master''] w)
             | Some resp \<Rightarrow>
                 (Reply 200 mpegurl (rewrite_master (Body resp)),
                  record_access [HttpGet (HLSMasterURL v)] w))
          else
            (let blobPath = extractBlobPath (bucket h) (HLSMasterURL v);
                 (res, w) = downloadBlob h w blobPath
             in case res of
                  None \<Rightarrow> (Reply 502 [] ''blob error'', record_access [Log ''master download''] w)
                | Some data \<Rightarrow> (Reply 200 mpegurl (rewrite_master data), w)))"

definition proxyM3U8 :: "'c handler \<Rightarrow> 'c world \<Rightarrow> string \<Rightarrow> response \<times> 'c world" where
  "proxyM3U8 h w url =
     (case http_get h url of
        None \<Rightarrow> (Reply 502 [] ''upstream error'', record_access [HttpGet url] w)
      | Some resp \<Rightarrow> (Reply (StatusCode resp) mpegurl (Body resp), record_access [HttpGet url] w))"

text \<open>
  \<open>proxyBinary\<close> copies the first value of every upstream header that has one, then
  forces the cache-control header.
\<close>

definition proxyBinary :: "'c handler \<Rightarrow> 'c world \<Rightarrow> string \<Rightarrow> response \<times> 'c world" where
  "proxyBinary h w url =
     (case http_get h url of
        None \<Rightarrow> (Reply 502 [] ''upstream error'', record_access [HttpGet url] w)
      | Some resp \<Rightarrow>
          (let copied = fold (\<lambda>kv hs. if length (snd kv) > 0 then set_header (fst kv) (snd kv ! 0) hs else hs)
                          (Header resp) [];
               hs = set_header ''Cache-Control'' ''public, max-age=60'' copied
           in (Reply (StatusCode resp) hs (Body resp), record_access [HttpGet url] w)))"

definition GetVariant :: "'c handler \<Rightarrow> 'c world \<Rightarrow> string \<Rightarrow> string \<Rightarrow> response \<times> 'c world" where
  "GetVariant h w uploadID rendition =
     (if \<not> allowedRendition rendition then (Reply 400 [] ''invalid rendition'', w)
      else
        (let w = record_access [DbQuery uploadID] w in
         case db h uploadID of
           None \<Rightarrow> (Reply 404 [] ''not found'', w)
         | Some v \<Rightarrow>
             if s3client h then
               (let base = blobBase (bucket h) (HLSMasterURL v);
                    blobPath = base @ ''/'' @ rendition @ ''/index.m3u8'';
                    (res, w) = downloadBlob h w blobPath
                in case res of
                     None \<Rightarrow> (Reply 502 [] ''blob error'', record_access [Log ''variant download''] w)
                   | Some data \<Rightarrow> (Reply 200 mpegurl data, w))
             else
               (let base = baseHLSPath (HLSMasterURL v);
                    url = base @ ''/'' @ rendition @ ''/index.m3u8''
                in proxyM3U8 h w url)))"

text \<open>
  The two cache steps shared by \<open>GetSegment\<close> and \<open>GetThumbnail\<close>: the lookup (skipped
  without a cache; an error of \<open>Get\<close> is logged) and the population after a download
  (an error of \<open>Set\<close> is logged and nothing else). A successful download never yields a
  nil slice, so the test \<open>data != nil\<close> before \<open>Set\<close> holds.
\<close>

definition cache_lookup ::
  "'c handler \<Rightarrow> 'c world \<Rightarrow> string \<Rightarrow> string \<Rightarrow> string \<Rightarrow> string option \<times> 'c world" where
  "cache_lookup h w kind uploadID blobPath =
     (if cache h then
        (let cacheKey = GenerateKey h kind uploadID blobPath;
             (data, err) = cache_Get h (store w) cacheKey
         in (data, record_access (CacheGet cacheKey # (if err then [Log ''cache get error''] else [])) w))
      else (None, w))"

definition cache_populate ::
  "'c handler \<Rightarrow> 'c world \<Rightarrow> string \<Rightarrow> string \<Rightarrow> string \<Rightarrow> string \<Rightarrow> 'c world" where
  "cache_populate h w kind uploadID blobPath data =
     (if cache h then
        (let cacheKey = GenerateKey h kind uploadID blobPath;
             (st, err) = cache_Set h (store w) cacheKey data
         in record_access (CacheSet cacheKey # (if err then [Log ''cache set error''] else []))
              (w\<lparr>store := st\<rparr>))
      else w)"

definition segment_reply :: "string \<Rightarrow> string \<Rightarrow> response" where
  "segment_reply segment data =
     (let hs = set_header ''Content-Type''
                 (if HasSuffix segment ''.m3u8'' then ''application/vnd.apple.mpegurl''
                  else ''video/MP2T'') [];
          hs = set_header ''Cache-Control'' ''public, max-age=60'' hs
      in Reply 200 hs data)"

definition GetSegment ::
  "'c handler \<Rightarrow> 'c world \<Rightarrow> string \<Rightarrow> string \<Rightarrow> string \<Rightarrow> response \<times> 'c world" where
  "GetSegment h w uploadID rendition segment =
     (if \<not> allowedRendition rendition
         \<or> \<not> HasSuffix segment ''.ts'' \<and> \<not> HasSuffix segment ''.m4s''
      then (Reply 400 [] ''invalid segment'', w)
      else
        (let w = record_access [DbQuery uploadID] w in
         case db h uploadID of
           None \<Rightarrow> (Reply 404 [] ''not found'', w)
         | Some v \<Rightarrow>
             if s3client h then
               (let base = blobBase (bucket h) (HLSMasterURL v);
                    blobPath = base @ ''/'' @ rendition @ ''/'' @ segment;
                    (cached, w) = cache_lookup h w ''segment'' uploadID blobPath
                in case cached of
                     Some data \<Rightarrow> (segment_reply segment data, w)
                   | None \<Rightarrow>
                       (let (res, w) = downloadBlob h w blobPath
                        in case res of
                             None \<Rightarrow>
                               (Reply 502 [] ''blob error'', record_access [Log ''segment download''] w)
                           | Some data \<Rightarrow>
                               (segment_reply segment data,
                                cache_populate h w ''segment'' uploadID blobPath data)))
             else
               (let base = baseHLSPath (HLSMasterURL v);
                    url = base @ ''/'' @ rendition @ ''/'' @ segment
                in proxyBinary h w url)))"

definition thumbnail_reply :: "string \<Rightarrow> response" where
  "thumbnail_reply data =
     (let hs = set_header ''Content-Type'' ''image/jpeg'' [];
          hs = set_header ''Cache-Control'' ''public, max-age=3600'' hs
      in Reply 200 hs data)"

definition GetThumbnail :: "'c handler \<Rightarrow> 'c world \<Rightarrow> string \<Rightarrow> response \<times> 'c world" where
  "GetThumbnail h w uploadID =
     (let w = record_access [DbQuery uploadID] w in
      case db h uploadID of
        None \<Rightarrow> (Reply 404 [] ''Video not found'', w)
      | Some v \<Rightarrow>
          if ThumbnailURL v = [] then (Reply 404 [] ''Thumbnail not available'', w)
          else if s3client h then
            (let thumbnailPath = ''thumbnails/'' @ UserID v @ ''/'' @ UploadID v @ ''.jpg'';
                 (cached, w) = cache_lookup h w ''thumbnail'' uploadID thumbnailPath
             in case cached of
                  Some data \<Rightarrow> (thumbnail_reply data, w)
                | None \<Rightarrow>
                    (let (res, w) = downloadBlob h w thumbnailPath
                     in case res of
                          None \<Rightarrow>
                            (Reply 404 [] ''Thumbnail not found'',
                             record_access [Log ''thumbnail download''] w)
                        | Some data \<Rightarrow>
                            (thumbnail_reply data,
                             cache_populate h w ''thumbnail'' uploadID thumbnailPath data)))
          else (Redirect 302 (ThumbnailURL v), w))"

subsection \<open>Counting storage fetches; example handlers\<close>

definition is_storage_fetch :: "access \<Rightarrow> bool" where
  "is_storage_fetch a = (case a of StorageGet k \<Rightarrow> True | _ \<Rightarrow> False)"

definition storage_fetches :: "access list \<Rightarrow> nat" where
  "storage_fetches as = length (filter is_storage_fetch as)"

text \<open>
  A private-mode handler with one ready video, a bucket holding one segment and the
  master playlist that the transcoder writes for the ladder 720p, 360p, and a cache
  store kept as an association list. Its variants: the
  cache unreachable for writes, and public mode with a video whose playlist is not
  produced yet.
\<close>

definition example_video :: video where
  "example_video = \<lparr>UploadID = ''abc123'', UserID = ''u1'',
     HLSMasterURL = ''hls/u1/abc123/master.m3u8'',
     ThumbnailURL = ''thumbnails/u1/abc123.jpg''\<rparr>"

definition example_bucket :: "string \<Rightarrow> string option" where
  "example_bucket k =
     (if k = ''hls/u1/abc123/720p/seg_000.ts'' then Some ''SEGMENT-BYTES''
      else if k = ''hls/u1/abc123/master.m3u8''
        then Some (buildMaster ''u1'' ''abc123'' [''720p'', ''360p''])
      else None)"

definition example_handler :: "(string \<times> string) list handler" where
  "example_handler = \<lparr>
     db = (\<lambda>i. if i = ''abc123'' then Some example_video else None),
     s3client = True,
     bucket = ''processed-videos'',
     download = example_bucket,
     http_get = (\<lambda>u. None),
     cache = True,
     GenerateKey = (\<lambda>kind i path. kind @ '':'' @ i @ '':'' @ path),
     cache_Get = (\<lambda>st k. (map_of st k, False)),
     cache_Set = (\<lambda>st k v. ((k, v) # st, False))\<rparr>"

definition example_handler_cache_down :: "(string \<times> string) list handler" where
  "example_handler_cache_down =
     example_handler\<lparr>cache_Get := (\<lambda>st k. (None, True)), cache_Set := (\<lambda>st k v. (st, True))\<rparr>"

definition example_pending_video :: video where
  "example_pending_video = \<lparr>UploadID = ''abc123'', UserID = ''u1'',
     HLSMasterURL = [], ThumbnailURL = ''http://cdn.example/thumbnails/u1/abc123.jpg''\<rparr>"

definition example_public_handler :: "(string \<times> string) list handler" where
  "example_public_handler =
     example_handler\<lparr>db := (\<lambda>i. if i = ''abc123'' then Some example_pending_video else None),
       s3client := False\<rparr>"


definition example_world :: "(string \<times> string) list world" where
  "example_world = \<lparr>store = [], trace = []\<rparr>"

subsection \<open>Predicates on effects, events and paths\<close>

text \<open>
  The effects of a job before anything is written for publication: local
  directories, the download, encoder runs, the removal of the workspace.
\<close>

definition is_preparation :: "effect \<Rightarrow> bool" where
  "is_preparation x =
     (case x of MkdirAll p \<Rightarrow> True | Create p \<Rightarrow> True | Download k \<Rightarrow> True
      | RunHLS d r \<Rightarrow> True | RemoveAll p \<Rightarrow> True | _ \<Rightarrow> False)"

definition json_field :: "json \<Rightarrow> string \<Rightarrow> json option" where
  "json_field j k = (case j of JObject kv \<Rightarrow> map_of kv k | _ \<Rightarrow> None)"

text \<open>
  A single clean path element, and an absolute path made of such elements (the form
  of every cleaned absolute path).
\<close>

definition path_element :: "string \<Rightarrow> bool" where
  "path_element c = (c \<noteq> [] \<and> c \<noteq> ''.'' \<and> c \<noteq> ''..'' \<and> CHR ''/'' \<notin> set c)"

definition abs_clean :: "string \<Rightarrow> bool" where
  "abs_clean p = (\<exists>cs. p = CHR ''/'' # join_with ''/'' cs \<and> (\<forall>c \<in> set cs. path_element c))"

subsection \<open>An example job\<close>

text \<open>
  The event of the specification's scenario and an environment in which every step
  succeeds; the encoder leaves a playlist and one segment per rendition.
\<close>

definition example_event :: UploadEvent where
  "example_event = \<lparr>uploadId = ''abc123'', userId = ''u1'', username = ''alice'',
     originalFilename = ''clip.mp4'', title = ''Clip'', description = [], tags = [],
     isPrivate = False, category = [], rawVideoPath = ''raw/u1/abc123.mp4'',
     containerName = [], blobUrl = [], resolutions = [''720p'', ''360p'']\<rparr>"

definition example_env :: env where
  "example_env = \<lparr>TempDir = ''/tmp'',
     getenv = (\<lambda>v. if v = ''MINIO_PUBLIC_BASE'' then ''http://cdn.example/processed-videos'' else []),
     read_secret = (\<lambda>f. None),
     mkdir_ok = (\<lambda>p. True), create_ok = (\<lambda>p. True), write_ok = (\<lambda>p. True),
     raw_object = (\<lambda>k. if k = ''raw/u1/abc123.mp4'' then Some ''RAW'' else None),
     put_ok = (\<lambda>k. True),
     publish_ok = (\<lambda>j. True),
     ffmpeg_hls = (\<lambda>input res. Some [(''index.m3u8'', ''PLAYLIST''), (''seg_000.ts'', ''SEGMENT'')]),
     ffmpeg_thumbnail = (\<lambda>input. Some ''JPEG'')\<rparr>"

text \<open>
  Variants: the encoder fails on 360p; the user id is \<open>..\<close>; the user id is
  \<open>u.blob.core.windows.net\<close>; no thumbnail can be extracted.
\<close>

definition example_env_encoder_fails :: env where
  "example_env_encoder_fails =
     example_env\<lparr>ffmpeg_hls := (\<lambda>input res. if res = ''360p'' then None
                                   else ffmpeg_hls example_env input res)\<rparr>"

definition example_event_dotdot :: UploadEvent where
  "example_event_dotdot = example_event\<lparr>userId := ''..''\<rparr>"

definition example_event_marker :: UploadEvent where
  "example_event_marker = example_event\<lparr>userId := ''u.blob.core.windows.net''\<rparr>"

definition example_env_no_thumbnail :: env where
  "example_env_no_thumbnail = example_env\<lparr>ffmpeg_thumbnail := (\<lambda>input. None)\<rparr>"

section \<open>Properties of the master playlist\<close>

lemma fold_master_step: "fold master_step L s = s @ concat (map (\<lambda>r. master_step r []) L)"
proof (induction L arbitrary: s)
  case Nil
  show ?case by simp
next
  case (Cons r L)
  have "master_step r s = s @ master_step r []"
    by (simp add: master_step_def)
  with Cons show ?case by simp
qed

lemma fmt_d_table:
  "fmt_d 5192000 = ''5192000''" "fmt_d 2928000 = ''2928000''"
  "fmt_d 1496000 = ''1496000''" "fmt_d 864000 = ''864000''"
  by code_simp+

lemma master_step_spec:
  assumes "r \<in> set renditions"
  shows "master_step r [] = spec_entry r"
proof -
  from assms consider "r = ''1080p''" | "r = ''720p''" | "r = ''480p''" | "r = ''360p''"
    by (auto simp: renditions_def)
  then show ?thesis
    by cases
      (simp_all add: master_step_def spec_entry_def spec_bandwidth_def spec_resolution_def
        index_int_def index_str_def bw_def resMap_def fmt_d_table)
qed

lemma buildMaster_nonempty:
  assumes "L \<noteq> []" and "set L \<subseteq> set renditions"
  shows "buildMaster u i L = spec_manifest L"
proof -
  have "map (\<lambda>r. master_step r []) L = map spec_entry L"
    using assms(2) by (intro map_cong refl master_step_spec) auto
  then have entries: "concat (map (\<lambda>r. master_step r []) L) = concat (map spec_entry L)"
    by (rule arg_cong)
  from assms(1) show ?thesis
    by (simp add: buildMaster_def spec_manifest_def fold_master_step entries)
qed

lemma buildMaster_empty: "buildMaster u i [] = spec_manifest default_ladder"
proof -
  have "buildMaster u i [] = buildMaster u i default_ladder"
    by (simp add: buildMaster_def default_ladder_def)
  also have "\<dots> = spec_manifest default_ladder"
    by (rule buildMaster_nonempty) (simp_all add: default_ladder_def renditions_def)
  finally show ?thesis .
qed

lemma ladder_of_nonempty: "ladder_of evt \<noteq> []"
  by (simp add: ladder_of_def default_ladder_def)

text \<open>
  Claim C1: for every ladder \<open>L\<close> of labels among 1080p, 720p, 480p, 360p, in any order,
  \<open>buildMaster\<close> produces the header line followed by exactly one stream entry per
  label of \<open>L\<close>, in the order of \<open>L\<close>, each with the bandwidth of the table (720p:
  2928000, 360p: 864000, 1080p: 5192000, 480p: 1496000) and followed by
  \<open><label>/index.m3u8\<close>. A ladder is never empty: \<open>Handle\<close>, the only caller, passes
  \<open>ladder_of evt\<close>, which is the canonical ladder when the event names no resolution.
  The statement is given for every non-empty ladder and for the ladder of every event.
\<close>

theorem C1_buildMaster_lists_ladder:
  "(L \<noteq> [] \<and> set L \<subseteq> {''1080p'', ''720p'', ''480p'', ''360p''} \<longrightarrow>
      buildMaster u i L = spec_manifest L)
   \<and> ladder_of evt \<noteq> []
   \<and> (set (ladder_of evt) \<subseteq> {''1080p'', ''720p'', ''480p'', ''360p''} \<longrightarrow>
      buildMaster (userId evt) (uploadId evt) (ladder_of evt) = spec_manifest (ladder_of evt))"
proof -
  have "buildMaster v j K = spec_manifest K"
    if "K \<noteq> []" "set K \<subseteq> {''1080p'', ''720p'', ''480p'', ''360p''}" for v j K
  proof -
    from that(2) have "set K \<subseteq> set renditions" by (simp add: renditions_def)
    with that(1) show ?thesis by (rule buildMaster_nonempty)
  qed
  then show ?thesis
    using ladder_of_nonempty [of evt] by blast
qed

text \<open>Claim C1 at the ladder 720p, 360p of the specification's scenario.\<close>

theorem C1_buildMaster_witness:
  "[''720p'', ''360p''] \<noteq> []
   \<and> set [''720p'', ''360p''] \<subseteq> {''1080p'', ''720p'', ''480p'', ''360p''}
   \<and> buildMaster ''u1'' ''abc123'' [''720p'', ''360p''] =
     ''#EXTM3U\<newline>#EXT-X-STREAM-INF:BANDWIDTH=2928000,RESOLUTION=1280x720\<newline>720p/index.m3u8\<newline>#EXT-X-STREAM-INF:BANDWIDTH=864000,RESOLUTION=640x360\<newline>360p/index.m3u8\<newline>''
   \<and> ladder_of example_event = [''720p'', ''360p'']
   \<and> buildMaster (userId example_event) (uploadId example_event) (ladder_of example_event) =
     ''#EXTM3U\<newline>#EXT-X-STREAM-INF:BANDWIDTH=2928000,RESOLUTION=1280x720\<newline>720p/index.m3u8\<newline>#EXT-X-STREAM-INF:BANDWIDTH=864000,RESOLUTION=640x360\<newline>360p/index.m3u8\<newline>''"
proof -
  have l: "ladder_of example_event = [''720p'', ''360p'']"
    by (simp add: ladder_of_def example_event_def)
  show ?thesis
    using C1_buildMaster_lists_ladder [of "[''720p'', ''360p'']" "''u1''" "''abc123''" example_event]
    by (simp add: l spec_manifest_def spec_entry_def spec_bandwidth_def spec_resolution_def)
qed


section \<open>Properties of the blob path resolver\<close>

lemma cut_at_front: "sep \<noteq> [] \<Longrightarrow> cut (sep @ rest) sep = Some ([], rest)"
  by (cases sep) simp_all

lemma not_prefix_before_last:
  assumes "c \<notin> set u" "c \<notin> set m" "u \<noteq> []"
  shows "\<not> prefix (m @ [c]) (u @ m @ c # rest)"
proof
  assume "prefix (m @ [c]) (u @ m @ c # rest)"
  then obtain zs where eq: "u @ m @ c # rest = (m @ [c]) @ zs"
    by (auto simp: prefix_def)
  have "length m < length (u @ m)"
    using assms(3) by (cases u) simp_all
  then have "(u @ m @ c # rest) ! length m = (u @ m) ! length m"
    by (metis append.assoc nth_append)
  moreover have "((m @ [c]) @ zs) ! length m = c"
    by (simp add: nth_append)
  ultimately have "(u @ m) ! length m = c"
    using eq by simp
  moreover have "(u @ m) ! length m \<in> set (u @ m)"
    using \<open>length m < length (u @ m)\<close> nth_mem by blast
  ultimately show False
    using assms(1,2) by auto
qed

lemma cut_after_clean_prefix:
  assumes "c \<notin> set u" "c \<notin> set m"
  shows "cut (u @ m @ c # rest) (m @ [c]) = Some (u, rest)"
  using assms(1)
proof (induction u)
  case Nil
  have "cut ((m @ [c]) @ rest) (m @ [c]) = Some ([], rest)"
    by (rule cut_at_front) simp
  then show ?case by simp
next
  case (Cons a u)
  have "\<not> prefix (m @ [c]) ((a # u) @ m @ c # rest)"
    using Cons.prems assms(2) by (intro not_prefix_before_last) simp_all
  with Cons show ?case by simp
qed

lemma cut_slash: "CHR ''/'' \<notin> set u \<Longrightarrow> cut (u @ CHR ''/'' # rest) ''/'' = Some (u, rest)"
  using cut_after_clean_prefix [of "CHR ''/''" u "[]" rest] by simp

lemma cut_marker:
  "CHR ''/'' \<notin> set u \<Longrightarrow> cut (u @ azure_marker @ rest) azure_marker = Some (u, rest)"
  using cut_after_clean_prefix [of "CHR ''/''" u "''.blob.core.windows.net''" rest]
  by (simp add: azure_marker_def)

lemma SplitN_2: "SplitN s sep 2 = (case cut s sep of None \<Rightarrow> [s] | Some (a, b) \<Rightarrow> [a, b])"
  by (simp add: numeral_2_eq_2 split: option.splits)

lemma TrimPrefix_append: "TrimPrefix (b @ p) b = p"
  by (simp add: TrimPrefix_def HasPrefix_def)

lemma TrimPrefix_none: "\<not> HasPrefix p q \<Longrightarrow> TrimPrefix p q = p"
  by (simp add: TrimPrefix_def)

lemma cut_marker_scheme:
  assumes "CHR ''/'' \<notin> set account" "scheme = ''http://'' \<or> scheme = ''https://''"
  shows "cut (scheme @ account @ azure_marker @ rest) azure_marker = Some (scheme @ account, rest)"
  using assms(2) cut_marker [OF assms(1), of rest]
  by (auto simp: azure_marker_def)

lemma SplitN_4_url:
  assumes "CHR ''/'' \<notin> set host" "scheme = ''http://'' \<or> scheme = ''https://''"
  shows "SplitN (scheme @ host @ ''/'' @ rest) ''/'' 4 = [butlast (butlast scheme), [], host, rest]"
proof -
  have "cut (host @ CHR ''/'' # rest) ''/'' = Some (host, rest)"
    using assms(1) by (rule cut_slash)
  then show ?thesis
    using assms(2) by (auto simp: eval_nat_numeral)
qed


lemma extractBlobPath_cloud:
  assumes "cut url azure_marker = Some (pre, rest)"
  shows "extractBlobPath b url = TrimPrefix (TrimPrefix rest (b @ ''/'')) ''/''"
  using assms by (simp add: extractBlobPath_def Contains_def SplitN_2)

lemma extractBlobPath_generic:
  assumes "\<not> Contains url azure_marker"
    and "HasPrefix url ''http://'' \<or> HasPrefix url ''https://''"
    and "SplitN url ''/'' 4 = [x, y, h, rest]"
  shows "extractBlobPath b url = TrimPrefix (TrimPrefix rest (b @ ''/'')) ''/''"
  using assms by (simp add: extractBlobPath_def)

lemma extractBlobPath_relative:
  assumes "\<not> Contains url azure_marker"
    and "\<not> ((HasPrefix url ''http://'' \<or> HasPrefix url ''https://'') \<and> length (SplitN url ''/'' 4) \<ge> 4)"
  shows "extractBlobPath b url = TrimPrefix url ''/''"
  using assms by (auto simp: extractBlobPath_def)

lemma resolve_cloud_form:
  assumes "\<not> HasPrefix p ''/''" "scheme = ''http://'' \<or> scheme = ''https://''"
    "CHR ''/'' \<notin> set account"
  shows "extractBlobPath b (scheme @ account @ azure_marker @ b @ ''/'' @ p) = p"
proof -
  have "cut (scheme @ account @ azure_marker @ (b @ ''/'') @ p) azure_marker
          = Some (scheme @ account, (b @ ''/'') @ p)"
    using assms(3,2) by (rule cut_marker_scheme)
  then have "extractBlobPath b (scheme @ account @ azure_marker @ (b @ ''/'') @ p)
          = TrimPrefix (TrimPrefix ((b @ ''/'') @ p) (b @ ''/'')) ''/''"
    by (rule extractBlobPath_cloud)
  also have "\<dots> = p"
    using assms(1) by (simp add: TrimPrefix_def HasPrefix_def)
  finally show ?thesis by simp
qed

lemma resolve_generic_form:
  assumes "\<not> HasPrefix p ''/''" "scheme = ''http://'' \<or> scheme = ''https://''"
    "CHR ''/'' \<notin> set host"
    "\<not> Contains (scheme @ host @ ''/'' @ b @ ''/'' @ p) azure_marker"
  shows "extractBlobPath b (scheme @ host @ ''/'' @ b @ ''/'' @ p) = p"
proof -
  let ?url = "scheme @ host @ ''/'' @ (b @ ''/'') @ p"
  have split: "SplitN ?url ''/'' 4 = [butlast (butlast scheme), [], host, (b @ ''/'') @ p]"
    using assms(3,2) by (rule SplitN_4_url)
  have pre: "HasPrefix ?url ''http://'' \<or> HasPrefix ?url ''https://''"
    using assms(2) by (auto simp: HasPrefix_def)
  have "\<not> Contains ?url azure_marker"
    using assms(4) by simp
  then have "extractBlobPath b ?url = TrimPrefix (TrimPrefix ((b @ ''/'') @ p) (b @ ''/'')) ''/''"
    using pre split by (rule extractBlobPath_generic)
  also have "\<dots> = p"
    using assms(1) by (simp add: TrimPrefix_def HasPrefix_def)
  finally show ?thesis by simp
qed

lemma resolve_relative_form:
  assumes "\<not> HasPrefix p ''/''" "\<not> Contains p azure_marker"
    "\<not> HasPrefix p ''http://''" "\<not> HasPrefix p ''https://''"
  shows "extractBlobPath b p = p" and "extractBlobPath b (''/'' @ p) = p"
proof -
  show "extractBlobPath b p = p"
    using assms by (simp add: extractBlobPath_relative TrimPrefix_none)
  have "\<not> Contains (''/'' @ p) azure_marker"
    using assms(2) by (simp add: Contains_def azure_marker_def split: option.splits)
  moreover have "\<not> HasPrefix (''/'' @ p) ''http://''" "\<not> HasPrefix (''/'' @ p) ''https://''"
    by (simp_all add: HasPrefix_def)
  ultimately have "extractBlobPath b (''/'' @ p) = TrimPrefix (''/'' @ p) ''/''"
    by (simp add: extractBlobPath_relative)
  then show "extractBlobPath b (''/'' @ p) = p"
    by (simp only: TrimPrefix_append)
qed

text \<open>
  The order of the three patterns, and the paths on which the three forms agree:
  \<open>extractBlobPath\<close> tries the cloud-provider pattern first (the text after the first
  \<open>.blob.core.windows.net/\<close>, the bucket name stripped as a prefix), then the generic
  \<open>http(s)://host[:port]/bucket/path\<close> pattern (split on the first three slashes, host and
  bucket dropped), then the relative fallback (a leading slash stripped). When \<open>p\<close> has
  no leading slash, does not start with \<open>http://\<close> or \<open>https://\<close> and the text
  \<open>.blob.core.windows.net/\<close> occurs neither in \<open>p\<close> nor in its generic URL, the
  cloud-provider URL of \<open>p\<close>, the generic URL of \<open>p\<close> and the bare forms of \<open>p\<close> all
  resolve to \<open>p\<close>.
\<close>

lemma extractBlobPath_resolves_forms:
  assumes "\<not> HasPrefix p ''/''" and "\<not> Contains p azure_marker"
    and "\<not> HasPrefix p ''http://''" and "\<not> HasPrefix p ''https://''"
    and "scheme = ''http://'' \<or> scheme = ''https://''"
    and "CHR ''/'' \<notin> set account" and "CHR ''/'' \<notin> set host"
    and "\<not> Contains (scheme @ host @ ''/'' @ b @ ''/'' @ p) azure_marker"
  shows "extractBlobPath b (scheme @ account @ azure_marker @ b @ ''/'' @ p) = p
       \<and> extractBlobPath b (scheme @ host @ ''/'' @ b @ ''/'' @ p) = p
       \<and> extractBlobPath b p = p
       \<and> extractBlobPath b (''/'' @ p) = p
       \<and> (cut cloud_url azure_marker = Some (pre, rest) \<longrightarrow>
            extractBlobPath b cloud_url = TrimPrefix (TrimPrefix rest (b @ ''/'')) ''/'')
       \<and> (\<not> Contains http_url azure_marker
            \<and> (HasPrefix http_url ''http://'' \<or> HasPrefix http_url ''https://'')
            \<and> SplitN http_url ''/'' 4 = [x, y, h, tl_path] \<longrightarrow>
            extractBlobPath b http_url = TrimPrefix (TrimPrefix tl_path (b @ ''/'')) ''/'')
       \<and> (\<not> Contains rel_url azure_marker
            \<and> \<not> ((HasPrefix rel_url ''http://'' \<or> HasPrefix rel_url ''https://'')
                  \<and> length (SplitN rel_url ''/'' 4) \<ge> 4) \<longrightarrow>
            extractBlobPath b rel_url = TrimPrefix rel_url ''/'')"
proof (intro conjI impI)
  show "extractBlobPath b (scheme @ account @ azure_marker @ b @ ''/'' @ p) = p"
    using assms(1,5,6) by (rule resolve_cloud_form)
  show "extractBlobPath b (scheme @ host @ ''/'' @ b @ ''/'' @ p) = p"
    using assms(1,5,7,8) by (rule resolve_generic_form)
  show "extractBlobPath b p = p"
    using assms(1-4) by (rule resolve_relative_form)
  show "extractBlobPath b (''/'' @ p) = p"
    using assms(1-4) by (rule resolve_relative_form)
next
  assume "cut cloud_url azure_marker = Some (pre, rest)"
  then show "extractBlobPath b cloud_url = TrimPrefix (TrimPrefix rest (b @ ''/'')) ''/''"
    by (rule extractBlobPath_cloud)
next
  assume "\<not> Contains http_url azure_marker
            \<and> (HasPrefix http_url ''http://'' \<or> HasPrefix http_url ''https://'')
            \<and> SplitN http_url ''/'' 4 = [x, y, h, tl_path]"
  then show "extractBlobPath b http_url = TrimPrefix (TrimPrefix tl_path (b @ ''/'')) ''/''"
    by (blast intro: extractBlobPath_generic)
next
  assume "\<not> Contains rel_url azure_marker
            \<and> \<not> ((HasPrefix rel_url ''http://'' \<or> HasPrefix rel_url ''https://'')
                  \<and> length (SplitN rel_url ''/'' 4) \<ge> 4)"
  then show "extractBlobPath b rel_url = TrimPrefix rel_url ''/''"
    by (blast intro: extractBlobPath_relative)
qed

text \<open>The three forms of the path of a master playlist in the bucket \<open>processed-videos\<close>.\<close>

lemma extractBlobPath_resolves_example:
  "extractBlobPath ''processed-videos''
     ''https://streamhive.blob.core.windows.net/processed-videos/hls/u1/abc123/master.m3u8''
     = ''hls/u1/abc123/master.m3u8''
   \<and> extractBlobPath ''processed-videos''
     ''https://minio:9000/processed-videos/hls/u1/abc123/master.m3u8''
     = ''hls/u1/abc123/master.m3u8''
   \<and> extractBlobPath ''processed-videos'' ''hls/u1/abc123/master.m3u8''
     = ''hls/u1/abc123/master.m3u8''
   \<and> extractBlobPath ''processed-videos'' ''/hls/u1/abc123/master.m3u8''
     = ''hls/u1/abc123/master.m3u8''
   \<and> cut ''https://streamhive.blob.core.windows.net/processed-videos/hls/u1/abc123/master.m3u8''
       azure_marker = Some (''https://streamhive'', ''processed-videos/hls/u1/abc123/master.m3u8'')
   \<and> \<not> Contains ''https://minio:9000/processed-videos/hls/u1/abc123/master.m3u8'' azure_marker
   \<and> SplitN ''https://minio:9000/processed-videos/hls/u1/abc123/master.m3u8'' ''/'' 4
       = [''https:'', [], ''minio:9000'', ''processed-videos/hls/u1/abc123/master.m3u8'']
   \<and> \<not> Contains ''/hls/u1/abc123/master.m3u8'' azure_marker
   \<and> \<not> HasPrefix ''/hls/u1/abc123/master.m3u8'' ''http://''
   \<and> \<not> HasPrefix ''/hls/u1/abc123/master.m3u8'' ''https://''
   \<and> TrimPrefix ''/hls/u1/abc123/master.m3u8'' ''/'' = ''hls/u1/abc123/master.m3u8''"
proof -
  let ?p = "''hls/u1/abc123/master.m3u8''"
  have 1: "\<not> HasPrefix ?p ''/''" by (simp add: HasPrefix_def)
  have 2: "\<not> Contains ?p azure_marker" by (simp add: Contains_def azure_marker_def)
  have 3: "\<not> HasPrefix ?p ''http://''" by (simp add: HasPrefix_def)
  have 4: "\<not> HasPrefix ?p ''https://''" by (simp add: HasPrefix_def)
  have 5: "''https://'' = ''http://'' \<or> ''https://'' = ''https://''" by simp
  have 6: "CHR ''/'' \<notin> set ''streamhive''" by simp
  have 7: "CHR ''/'' \<notin> set ''minio:9000''" by simp
  have 8: "\<not> Contains (''https://'' @ ''minio:9000'' @ ''/'' @ ''processed-videos'' @ ''/'' @ ?p) azure_marker"
    by (simp add: Contains_def azure_marker_def)
  show ?thesis
    using extractBlobPath_resolves_forms [OF 1 2 3 4 5 6 7 8,
      where cloud_url = "''https://streamhive.blob.core.windows.net/processed-videos/hls/u1/abc123/master.m3u8''"
        and pre = "''https://streamhive''" and rest = "''processed-videos/hls/u1/abc123/master.m3u8''"
        and http_url = "''https://minio:9000/processed-videos/hls/u1/abc123/master.m3u8''"
        and x = "''https:''" and y = "[]" and h = "''minio:9000''"
        and tl_path = "''processed-videos/hls/u1/abc123/master.m3u8''"
        and rel_url = "''/hls/u1/abc123/master.m3u8''"]
    by (simp add: azure_marker_def Contains_def HasPrefix_def TrimPrefix_def eval_nat_numeral)
qed

text \<open>
  Claim C2 at the logical path \<open>hls/u.blob.core.windows.net/abc123/master.m3u8\<close>, the
  path of the master playlist of the user \<open>u.blob.core.windows.net\<close>: the job handler
  uploads the playlist at that key and announces its generic URL. \<open>extractBlobPath\<close>
  looks for \<open>.blob.core.windows.net/\<close> anywhere in its argument and not in the host
  segment, so it takes the generic URL and the bare forms of this path for
  cloud-provider URLs and resolves them to \<open>abc123/master.m3u8\<close>, where nothing was
  uploaded; only the cloud-provider URL of the path resolves to the path. The three
  forms of one logical path do not resolve to the same blob path.
\<close>

theorem C2_marker_in_path_misresolved:
  "fst (Handle example_env (Some example_event_marker)) = Inr ()
   \<and> uploaded_keys (snd (Handle example_env (Some example_event_marker))) =
       [''hls/u.blob.core.windows.net/abc123/360p/index.m3u8'',
        ''hls/u.blob.core.windows.net/abc123/360p/seg_000.ts'',
        ''hls/u.blob.core.windows.net/abc123/720p/index.m3u8'',
        ''hls/u.blob.core.windows.net/abc123/720p/seg_000.ts'',
        ''hls/u.blob.core.windows.net/abc123/master.m3u8'',
        ''thumbnails/u.blob.core.windows.net/abc123.jpg'']
   \<and> map (\<lambda>j. json_field j ''hls'') (published (snd (Handle example_env (Some example_event_marker))))
       = [Some (JObject [(''masterUrl'', JString
            ''http://cdn.example/processed-videos/hls/u.blob.core.windows.net/abc123/master.m3u8'')])]
   \<and> extractBlobPath ''processed-videos''
        ''https://streamhive.blob.core.windows.net/processed-videos/hls/u.blob.core.windows.net/abc123/master.m3u8''
       = ''hls/u.blob.core.windows.net/abc123/master.m3u8''
   \<and> extractBlobPath ''processed-videos''
        ''http://cdn.example/processed-videos/hls/u.blob.core.windows.net/abc123/master.m3u8''
       = ''abc123/master.m3u8''
   \<and> extractBlobPath ''processed-videos'' ''hls/u.blob.core.windows.net/abc123/master.m3u8''
       = ''abc123/master.m3u8''
   \<and> extractBlobPath ''processed-videos'' ''/hls/u.blob.core.windows.net/abc123/master.m3u8''
       = ''abc123/master.m3u8''"
  by code_simp

section \<open>Properties of the playback handlers\<close>

lemmas playback_defs =
  GetMaster_def GetVariant_def GetSegment_def GetThumbnail_def downloadBlob_def
  cache_lookup_def cache_populate_def record_access_def proxyM3U8_def proxyBinary_def

lemmas example_defs =
  example_handler_def example_handler_cache_down_def example_public_handler_def
  example_video_def example_pending_video_def example_world_def example_bucket_def

lemma allowedRendition_iff:
  "allowedRendition r \<longleftrightarrow> r \<in> {''1080p'', ''720p'', ''480p'', ''360p''}"
  by (auto simp: allowedRendition_def)

text \<open>
  Claim C5: for every rendition parameter outside 1080p, 720p, 480p, 360p, \<open>GetVariant\<close>
  replies with status 400, and so does \<open>GetSegment\<close>, which also does so for every
  segment name that ends neither in \<open>.ts\<close> nor in \<open>.m4s\<close>; the world is returned as it
  was, with nothing added to the trace: no database query and no storage or upstream
  access is made, whatever the handler's collaborators are.
\<close>

theorem C5_invalid_parameters_rejected:
  "(rendition \<notin> {''1080p'', ''720p'', ''480p'', ''360p''} \<longrightarrow>
      GetVariant h w uploadID rendition = (Reply 400 [] ''invalid rendition'', w))
   \<and> (rendition \<notin> {''1080p'', ''720p'', ''480p'', ''360p''}
        \<or> \<not> HasSuffix segment ''.ts'' \<and> \<not> HasSuffix segment ''.m4s'' \<longrightarrow>
      GetSegment h w uploadID rendition segment = (Reply 400 [] ''invalid segment'', w))"
  unfolding allowedRendition_iff [symmetric]
  by (auto simp: GetVariant_def GetSegment_def)

text \<open>Claim C5 at the rendition \<open>4k\<close> and at the segment name \<open>master.m3u8\<close>.\<close>

theorem C5_invalid_parameters_witness:
  "''4k'' \<notin> {''1080p'', ''720p'', ''480p'', ''360p''}
   \<and> GetVariant example_handler example_world ''abc123'' ''4k''
       = (Reply 400 [] ''invalid rendition'', example_world)
   \<and> \<not> HasSuffix ''master.m3u8'' ''.ts'' \<and> \<not> HasSuffix ''master.m3u8'' ''.m4s''
   \<and> GetSegment example_handler example_world ''abc123'' ''720p'' ''master.m3u8''
       = (Reply 400 [] ''invalid segment'', example_world)
   \<and> trace example_world = []"
  using C5_invalid_parameters_rejected [of "''4k''" example_handler example_world "''abc123''" "''master.m3u8''"]
    C5_invalid_parameters_rejected [of "''720p''" example_handler example_world "''abc123''" "''master.m3u8''"]
  by (simp add: HasSuffix_def suffix_to_prefix example_world_def)


text \<open>
  Claim C3, as stated, fails in two places. A video whose playlist field is empty but
  whose thumbnail field is set: \<open>GetThumbnail\<close> in public mode redirects to the
  thumbnail instead of reporting "not ready". An unknown video asked for with the
  rendition \<open>4k\<close>: \<open>GetVariant\<close> checks the rendition before it looks the video up and
  replies 400, not "not found".
\<close>

theorem C3_missing_descriptor_counterexample:
  "db example_public_handler ''abc123'' = Some example_pending_video
   \<and> HLSMasterURL example_pending_video = []
   \<and> fst (GetThumbnail example_public_handler example_world ''abc123'')
       = Redirect 302 ''http://cdn.example/thumbnails/u1/abc123.jpg''
   \<and> db example_public_handler ''zzz'' = None
   \<and> fst (GetVariant example_public_handler example_world ''zzz'' ''4k'')
       = Reply 400 [] ''invalid rendition''"
  by (simp add: playback_defs example_defs allowedRendition_def)

text \<open>
  Claim C3, amended: when no descriptor exists for the upload id, \<open>GetMaster\<close> replies
  404 "not found", \<open>GetThumbnail\<close> replies 404 "Video not found", and \<open>GetVariant\<close> and
  \<open>GetSegment\<close> reply 404 "not found" provided their path parameters are valid (they
  are validated first). When the descriptor exists and its playlist field is empty,
  \<open>GetMaster\<close> replies with the distinct status 400 "master not ready". When the
  descriptor exists and its thumbnail field is empty, \<open>GetThumbnail\<close> replies 404 with
  the distinct body "Thumbnail not available".
\<close>

theorem C3_not_found_and_not_ready:
  "(db h uploadID = None \<longrightarrow>
      fst (GetMaster h w uploadID) = Reply 404 [] ''not found''
      \<and> fst (GetThumbnail h w uploadID) = Reply 404 [] ''Video not found'')
   \<and> (db h uploadID = None \<and> allowedRendition rendition \<longrightarrow>
      fst (GetVariant h w uploadID rendition) = Reply 404 [] ''not found'')
   \<and> (db h uploadID = None \<and> allowedRendition rendition
        \<and> (HasSuffix segment ''.ts'' \<or> HasSuffix segment ''.m4s'') \<longrightarrow>
      fst (GetSegment h w uploadID rendition segment) = Reply 404 [] ''not found'')
   \<and> (db h uploadID = Some v \<and> HLSMasterURL v = [] \<longrightarrow>
      fst (GetMaster h w uploadID) = Reply 400 [] ''master not ready'')
   \<and> (db h uploadID = Some v \<and> ThumbnailURL v = [] \<longrightarrow>
      fst (GetThumbnail h w uploadID) = Reply 404 [] ''Thumbnail not available'')"
  by (auto simp: GetMaster_def GetThumbnail_def GetVariant_def GetSegment_def Let_def)

text \<open>Claim C3, amended, at the example handlers.\<close>

theorem C3_not_found_and_not_ready_witness:
  "db example_public_handler ''zzz'' = None
   \<and> fst (GetMaster example_public_handler example_world ''zzz'') = Reply 404 [] ''not found''
   \<and> fst (GetThumbnail example_public_handler example_world ''zzz'') = Reply 404 [] ''Video not found''
   \<and> allowedRendition ''720p''
   \<and> fst (GetVariant example_public_handler example_world ''zzz'' ''720p'') = Reply 404 [] ''not found''
   \<and> HasSuffix ''seg_000.ts'' ''.ts''
   \<and> fst (GetSegment example_public_handler example_world ''zzz'' ''720p'' ''seg_000.ts'')
       = Reply 404 [] ''not found''
   \<and> db example_public_handler ''abc123'' = Some example_pending_video
   \<and> HLSMasterURL example_pending_video = []
   \<and> fst (GetMaster example_public_handler example_world ''abc123'') = Reply 400 [] ''master not ready''
   \<and> db (example_public_handler\<lparr>db := (\<lambda>i. Some (example_video\<lparr>ThumbnailURL := []\<rparr>))\<rparr>) ''abc123''
       = Some (example_video\<lparr>ThumbnailURL := []\<rparr>)
   \<and> fst (GetThumbnail (example_public_handler\<lparr>db := (\<lambda>i. Some (example_video\<lparr>ThumbnailURL := []\<rparr>))\<rparr>)
            example_world ''abc123'') = Reply 404 [] ''Thumbnail not available''"
proof -
  have a: "db example_public_handler ''zzz'' = None"
    and b: "allowedRendition ''720p''" and c: "HasSuffix ''seg_000.ts'' ''.ts''"
    and d: "db example_public_handler ''abc123'' = Some example_pending_video"
    and e: "HLSMasterURL example_pending_video = []"
    by (simp_all add: example_defs allowedRendition_def HasSuffix_def suffix_to_prefix)
  let ?h = "example_public_handler\<lparr>db := (\<lambda>i. Some (example_video\<lparr>ThumbnailURL := []\<rparr>))\<rparr>"
  have f: "db ?h ''abc123'' = Some (example_video\<lparr>ThumbnailURL := []\<rparr>)"
    and g: "ThumbnailURL (example_video\<lparr>ThumbnailURL := []\<rparr>) = []"
    by simp_all
  show ?thesis
    using C3_not_found_and_not_ready [where h = example_public_handler and uploadID = "''zzz''"
          and w = example_world and rendition = "''720p''" and segment = "''seg_000.ts''"]
      C3_not_found_and_not_ready [where h = example_public_handler and uploadID = "''abc123''"
          and w = example_world and v = example_pending_video]
      C3_not_found_and_not_ready [where h = "?h" and uploadID = "''abc123''"
          and w = example_world and v = "example_video\<lparr>ThumbnailURL := []\<rparr>"]
      a b c d e f g
    by simp
qed

lemma storage_fetches_append [simp]:
  "storage_fetches (xs @ ys) = storage_fetches xs + storage_fetches ys"
  by (simp add: storage_fetches_def)

lemma storage_fetches_simps [simp]:
  "storage_fetches [] = 0"
  "storage_fetches (StorageGet k # xs) = Suc (storage_fetches xs)"
  "storage_fetches (DbQuery k # xs) = storage_fetches xs"
  "storage_fetches (HttpGet k # xs) = storage_fetches xs"
  "storage_fetches (CacheGet k # xs) = storage_fetches xs"
  "storage_fetches (CacheSet k # xs) = storage_fetches xs"
  "storage_fetches (Log k # xs) = storage_fetches xs"
  by (simp_all add: storage_fetches_def is_storage_fetch_def)

lemma GetSegment_hit:
  assumes "s3client h" "cache h" "allowedRendition rendition"
    "HasSuffix segment ''.ts'' \<or> HasSuffix segment ''.m4s''"
    "db h uploadID = Some v"
    "blobPath = blobBase (bucket h) (HLSMasterURL v) @ ''/'' @ rendition @ ''/'' @ segment"
    "key = GenerateKey h ''segment'' uploadID blobPath"
    "cache_Get h (store w) key = (Some data, err)"
  shows "GetSegment h w uploadID rendition segment =
    (segment_reply segment data,
     w\<lparr>trace := trace w @ DbQuery uploadID # CacheGet key # (if err then [Log ''cache get error''] else [])\<rparr>)"
  using assms by (auto simp: GetSegment_def cache_lookup_def record_access_def Let_def)

lemma GetSegment_miss:
  assumes "s3client h" "cache h" "allowedRendition rendition"
    "HasSuffix segment ''.ts'' \<or> HasSuffix segment ''.m4s''"
    "db h uploadID = Some v"
    "blobPath = blobBase (bucket h) (HLSMasterURL v) @ ''/'' @ rendition @ ''/'' @ segment"
    "key = GenerateKey h ''segment'' uploadID blobPath"
    "cache_Get h (store w) key = (None, err)"
    "download h blobPath = Some data"
    "cache_Set h (store w) key data = (st, err')"
  shows "GetSegment h w uploadID rendition segment =
    (segment_reply segment data,
     \<lparr>store = st,
      trace = trace w @ DbQuery uploadID # CacheGet key # (if err then [Log ''cache get error''] else [])
        @ StorageGet blobPath # CacheSet key # (if err' then [Log ''cache set error''] else [])\<rparr>)"
  using assms
  by (auto simp: GetSegment_def cache_lookup_def cache_populate_def downloadBlob_def
      record_access_def Let_def)


text \<open>
  Claim C6, as stated, with a cache whose reads and writes fail: the failures are
  logged and both requests succeed, and each of them fetches the segment from
  storage, two fetches in all.
\<close>

theorem C6_cache_write_failure_counterexample:
  "storage_fetches (trace (snd (GetSegment example_handler_cache_down
      (snd (GetSegment example_handler_cache_down example_world ''abc123'' ''720p'' ''seg_000.ts''))
      ''abc123'' ''720p'' ''seg_000.ts''))) = 2"
  by (simp add: playback_defs example_defs allowedRendition_def HasSuffix_def suffix_to_prefix
      blobBase_def extractBlobPath_def Contains_def azure_marker_def HasPrefix_def TrimPrefix_def
      TrimSuffix_def Let_def)

text \<open>
  Claim C6, amended: in private mode with a cache configured, for a valid request
  for a segment of an existing video: on a cache hit the cached bytes are returned
  with no storage fetch; on a miss the bytes are fetched from storage, then written to
  the cache, then returned, and an error of the cache write is logged and the reply is
  the same; hence, when the entry written on the miss is what the cache returns at the
  next lookup, fetching the same segment twice performs exactly one storage fetch.
\<close>

theorem C6_read_through_cache:
  assumes "s3client h" and "cache h" and "allowedRendition rendition"
    and "HasSuffix segment ''.ts'' \<or> HasSuffix segment ''.m4s''"
    and "db h uploadID = Some v"
    and "blobPath = blobBase (bucket h) (HLSMasterURL v) @ ''/'' @ rendition @ ''/'' @ segment"
    and "key = GenerateKey h ''segment'' uploadID blobPath"
  shows "(cache_Get h (store w) key = (Some data, err) \<longrightarrow>
            GetSegment h w uploadID rendition segment =
              (segment_reply segment data,
               w\<lparr>trace := trace w @ DbQuery uploadID # CacheGet key
                     # (if err then [Log ''cache get error''] else [])\<rparr>)
            \<and> storage_fetches (trace (snd (GetSegment h w uploadID rendition segment)))
                = storage_fetches (trace w))
       \<and> (cache_Get h (store w) key = (None, err) \<and> download h blobPath = Some data
            \<and> cache_Set h (store w) key data = (st, werr) \<longrightarrow>
            GetSegment h w uploadID rendition segment =
              (segment_reply segment data,
               \<lparr>store = st,
                trace = trace w @ DbQuery uploadID # CacheGet key
                     # (if err then [Log ''cache get error''] else [])
                     @ StorageGet blobPath # CacheSet key
                     # (if werr then [Log ''cache set error''] else [])\<rparr>)
            \<and> storage_fetches (trace (snd (GetSegment h w uploadID rendition segment)))
                = storage_fetches (trace w) + 1)
       \<and> (cache_Get h (store w) key = (None, err) \<and> download h blobPath = Some data
            \<and> cache_Set h (store w) key data = (st, werr)
            \<and> cache_Get h st key = (Some data, err2) \<longrightarrow>
            fst (GetSegment h (snd (GetSegment h w uploadID rendition segment))
                   uploadID rendition segment) = segment_reply segment data
            \<and> storage_fetches (trace (snd (GetSegment h
                   (snd (GetSegment h w uploadID rendition segment))
                   uploadID rendition segment)))
                = storage_fetches (trace w) + 1)"
proof (intro conjI impI)
  assume hit: "cache_Get h (store w) key = (Some data, err)"
  show "GetSegment h w uploadID rendition segment =
              (segment_reply segment data,
               w\<lparr>trace := trace w @ DbQuery uploadID # CacheGet key
                     # (if err then [Log ''cache get error''] else [])\<rparr>)"
    using assms hit by (rule GetSegment_hit)
  then show "storage_fetches (trace (snd (GetSegment h w uploadID rendition segment)))
                = storage_fetches (trace w)"
    by simp
next
  assume miss: "cache_Get h (store w) key = (None, err) \<and> download h blobPath = Some data
            \<and> cache_Set h (store w) key data = (st, werr)"
  show first: "GetSegment h w uploadID rendition segment =
              (segment_reply segment data,
               \<lparr>store = st,
                trace = trace w @ DbQuery uploadID # CacheGet key
                     # (if err then [Log ''cache get error''] else [])
                     @ StorageGet blobPath # CacheSet key
                     # (if werr then [Log ''cache set error''] else [])\<rparr>)"
    using assms miss by (intro GetSegment_miss) simp_all
  then show "storage_fetches (trace (snd (GetSegment h w uploadID rendition segment)))
                = storage_fetches (trace w) + 1"
    by simp
next
  assume twice: "cache_Get h (store w) key = (None, err) \<and> download h blobPath = Some data
            \<and> cache_Set h (store w) key data = (st, werr)
            \<and> cache_Get h st key = (Some data, err2)"
  let ?w1 = "\<lparr>store = st,
                trace = trace w @ DbQuery uploadID # CacheGet key
                     # (if err then [Log ''cache get error''] else [])
                     @ StorageGet blobPath # CacheSet key
                     # (if werr then [Log ''cache set error''] else [])\<rparr>"
  have first: "GetSegment h w uploadID rendition segment = (segment_reply segment data, ?w1)"
    using assms twice by (intro GetSegment_miss) simp_all
  have "cache_Get h (store ?w1) key = (Some data, err2)"
    using twice by simp
  with assms have second: "GetSegment h ?w1 uploadID rendition segment =
      (segment_reply segment data,
       ?w1\<lparr>trace := trace ?w1 @ DbQuery uploadID # CacheGet key
             # (if err2 then [Log ''cache get error''] else [])\<rparr>)"
    by (rule GetSegment_hit)
  show "fst (GetSegment h (snd (GetSegment h w uploadID rendition segment))
                   uploadID rendition segment) = segment_reply segment data"
    by (simp add: first second)
  show "storage_fetches (trace (snd (GetSegment h
                   (snd (GetSegment h w uploadID rendition segment))
                   uploadID rendition segment)))
                = storage_fetches (trace w) + 1"
    by (simp add: first second)
qed


text \<open>Claim C6, amended, at the example handler, from an empty and from a warm cache.\<close>

theorem C6_read_through_cache_witness:
  "fst (GetSegment example_handler
          (snd (GetSegment example_handler example_world ''abc123'' ''720p'' ''seg_000.ts''))
          ''abc123'' ''720p'' ''seg_000.ts'')
     = Reply 200 [(''Content-Type'', ''video/MP2T''), (''Cache-Control'', ''public, max-age=60'')]
         ''SEGMENT-BYTES''
   \<and> storage_fetches (trace (snd (GetSegment example_handler
          (snd (GetSegment example_handler example_world ''abc123'' ''720p'' ''seg_000.ts''))
          ''abc123'' ''720p'' ''seg_000.ts''))) = 1
   \<and> trace (snd (GetSegment example_handler example_world ''abc123'' ''720p'' ''seg_000.ts''))
     = [DbQuery ''abc123'', CacheGet ''segment:abc123:hls/u1/abc123/720p/seg_000.ts'',
        StorageGet ''hls/u1/abc123/720p/seg_000.ts'',
        CacheSet ''segment:abc123:hls/u1/abc123/720p/seg_000.ts'']
   \<and> GetSegment example_handler
        \<lparr>store = [(''segment:abc123:hls/u1/abc123/720p/seg_000.ts'', ''SEGMENT-BYTES'')], trace = []\<rparr>
        ''abc123'' ''720p'' ''seg_000.ts''
     = (Reply 200 [(''Content-Type'', ''video/MP2T''), (''Cache-Control'', ''public, max-age=60'')]
         ''SEGMENT-BYTES'',
        \<lparr>store = [(''segment:abc123:hls/u1/abc123/720p/seg_000.ts'', ''SEGMENT-BYTES'')],
         trace = [DbQuery ''abc123'', CacheGet ''segment:abc123:hls/u1/abc123/720p/seg_000.ts'']\<rparr>)"
proof -
  let ?path = "''hls/u1/abc123/720p/seg_000.ts''"
  let ?key = "''segment:abc123:hls/u1/abc123/720p/seg_000.ts''"
  let ?warm = "\<lparr>store = [(?key, ''SEGMENT-BYTES'')], trace = []\<rparr> :: (string \<times> string) list world"
  have 1: "s3client example_handler" and 2: "cache example_handler"
    and 3: "allowedRendition ''720p''"
    and 4: "HasSuffix ''seg_000.ts'' ''.ts'' \<or> HasSuffix ''seg_000.ts'' ''.m4s''"
    and 5: "db example_handler ''abc123'' = Some example_video"
    by (simp_all add: example_defs allowedRendition_def HasSuffix_def suffix_to_prefix)
  have 6: "?path = blobBase (bucket example_handler) (HLSMasterURL example_video)
              @ ''/'' @ ''720p'' @ ''/'' @ ''seg_000.ts''"
    by (simp add: example_defs blobBase_def extractBlobPath_def Contains_def azure_marker_def
        HasPrefix_def TrimPrefix_def TrimSuffix_def HasSuffix_def suffix_to_prefix)
  have 7: "?key = GenerateKey example_handler ''segment'' ''abc123'' ?path"
    by (simp add: example_defs)
  have miss: "cache_Get example_handler (store example_world) ?key = (None, False)"
    and dl: "download example_handler ?path = Some ''SEGMENT-BYTES''"
    and set: "cache_Set example_handler (store example_world) ?key ''SEGMENT-BYTES''
                = ([(?key, ''SEGMENT-BYTES'')], False)"
    and again: "cache_Get example_handler [(?key, ''SEGMENT-BYTES'')] ?key
                = (Some ''SEGMENT-BYTES'', False)"
    and hit: "cache_Get example_handler (store ?warm) ?key = (Some ''SEGMENT-BYTES'', False)"
    by (simp_all add: example_defs)
  show ?thesis
    using C6_read_through_cache [OF 1 2 3 4 5 6 7, where w = example_world
          and data = "''SEGMENT-BYTES''" and err = False and st = "[(?key, ''SEGMENT-BYTES'')]"
          and werr = False and ?err2.0 = False]
      C6_read_through_cache [OF 1 2 3 4 5 6 7, where w = "?warm"
          and data = "''SEGMENT-BYTES''" and err = False]
      miss dl set again hit
    by (auto simp: segment_reply_def set_header_def example_world_def HasSuffix_def suffix_to_prefix)
qed

section \<open>Properties of path cleaning\<close>

lemma elements_nonempty [simp]: "elements s \<noteq> []"
  by (induction s) (auto split: list.splits)

lemma elements_no_slash: "c \<in> set (elements s) \<Longrightarrow> CHR ''/'' \<notin> set c"
  by (induction s arbitrary: c) (auto split: list.splits if_splits)

lemma elements_single: "CHR ''/'' \<notin> set s \<Longrightarrow> elements s = [s]"
  by (induction s) auto

lemma elements_append: "elements (x @ CHR ''/'' # y) = elements x @ elements y"
proof (induction x)
  case Nil
  show ?case by simp
next
  case (Cons a x)
  then show ?case
    by (cases "elements x") (auto split: list.splits)
qed

lemma join_with_Cons: "join_with sep (x # y # ys) = x @ sep @ join_with sep (y # ys)"
  by (simp add: join_with_def)

lemma join_with_single [simp]: "join_with sep [x] = x"
  by (simp add: join_with_def)

lemma join_with_snoc: "xs \<noteq> [] \<Longrightarrow> join_with sep (xs @ [y]) = join_with sep xs @ sep @ y"
  by (cases xs) (simp_all add: join_with_def)

lemma join_elements: "join_with ''/'' (elements s) = s"
proof (induction s)
  case Nil
  show ?case by (simp add: join_with_def)
next
  case (Cons a s)
  obtain f fs where el: "elements s = f # fs"
    by (cases "elements s") simp_all
  with Cons show ?case
    by (cases fs) (auto simp: join_with_def)
qed

lemma elements_join:
  assumes "cs \<noteq> []" "\<forall>c \<in> set cs. CHR ''/'' \<notin> set c"
  shows "elements (join_with ''/'' cs) = cs"
  using assms
proof (induction cs rule: list_nonempty_induct)
  case (single c)
  then show ?case by (simp add: elements_single)
next
  case (cons c cs)
  obtain d ds where "cs = d # ds" using cons.hyps by (cases cs) auto
  then have "join_with ''/'' (c # cs) = c @ CHR ''/'' # join_with ''/'' cs"
    by (simp add: join_with_def)
  then show ?case
    using cons by (simp add: elements_append elements_single)
qed

lemma clean_step_element: "path_element c \<Longrightarrow> clean_step r c st = c # st"
  by (auto simp: clean_step_def path_element_def)

lemma fold_clean_step_elements:
  "\<forall>c \<in> set cs. path_element c \<Longrightarrow> fold (clean_step r) cs st = rev cs @ st"
  by (induction cs arbitrary: st) (simp_all add: clean_step_element)

lemma clean_step_rooted_invariant:
  assumes "\<forall>d \<in> set st. path_element d" "CHR ''/'' \<notin> set c"
  shows "\<forall>d \<in> set (clean_step True c st). path_element d"
proof -
  consider "c = [] \<or> c = ''.''" | "c = ''..''" | "path_element c"
    using assms(2) by (auto simp: path_element_def)
  then show ?thesis
  proof cases
    case 1
    then show ?thesis using assms(1) by (auto simp: clean_step_def)
  next
    case 2
    show ?thesis
    proof (cases st)
      case Nil
      with 2 show ?thesis by (simp add: clean_step_def)
    next
      case (Cons t ts)
      with assms(1) have "t \<noteq> ''..''" by (auto simp: path_element_def)
      with Cons 2 assms(1) show ?thesis by (simp add: clean_step_def)
    qed
  next
    case 3
    with assms(1) show ?thesis by (simp add: clean_step_element)
  qed
qed

lemma fold_clean_step_rooted_invariant:
  assumes "\<forall>d \<in> set st. path_element d" "\<forall>c \<in> set cs. CHR ''/'' \<notin> set c"
  shows "\<forall>d \<in> set (fold (clean_step True) cs st). path_element d"
  using assms
proof (induction cs arbitrary: st)
  case Nil
  then show ?case by simp
next
  case (Cons c cs)
  have "\<forall>d \<in> set (clean_step True c st). path_element d"
    using Cons.prems by (intro clean_step_rooted_invariant) simp_all
  with Cons show ?case by simp
qed

lemma Clean_rooted:
  assumes "HasPrefix z ''/''"
  shows "abs_clean (Clean z)"
proof -
  have "z \<noteq> []" using assms by (auto simp: HasPrefix_def)
  moreover have "\<forall>d \<in> set (clean_elems z). path_element d"
    using assms fold_clean_step_rooted_invariant [of "[]" "elements z"]
    by (auto simp: clean_elems_def elements_no_slash)
  ultimately show ?thesis
    using assms by (auto simp: Clean_def abs_clean_def)
qed

lemma abs_clean_rooted: "abs_clean p \<Longrightarrow> HasPrefix p ''/''"
  by (auto simp: abs_clean_def HasPrefix_def)

lemma Join_rooted:
  assumes "HasPrefix x ''/''"
  shows "abs_clean (Join [x, y])"
proof -
  have "x \<noteq> []" using assms by (auto simp: HasPrefix_def)
  then have "Join [x, y] = Clean (if y = [] then x else x @ ''/'' @ y)"
    by (simp add: Join_def join_with_def)
  moreover have "HasPrefix (if y = [] then x else x @ ''/'' @ y) ''/''"
    using assms by (auto simp: HasPrefix_def)
  ultimately show ?thesis
    by (simp only: Clean_rooted)
qed

lemma relative_part_clean:
  assumes "abs_clean p" "HasPrefix p (root @ ''/'')" "root \<noteq> []"
  shows "\<forall>c \<in> set (elements (TrimPrefix p (root @ ''/''))). path_element c"
proof -
  let ?rel = "TrimPrefix p (root @ ''/'')"
  have p: "p = root @ CHR ''/'' # ?rel"
    using assms(2) by (auto simp: TrimPrefix_def HasPrefix_def prefix_def)
  obtain cs where cs: "p = CHR ''/'' # join_with ''/'' cs" "\<forall>c \<in> set cs. path_element c"
    using assms(1) by (auto simp: abs_clean_def)
  have "cs \<noteq> []"
  proof
    assume "cs = []"
    with cs(1) have "p = ''/''" by (simp add: join_with_def)
    with p assms(3) show False by (cases root) simp_all
  qed
  moreover have "\<forall>c \<in> set cs. CHR ''/'' \<notin> set c"
    using cs(2) by (simp add: path_element_def)
  ultimately have "elements (join_with ''/'' cs) = cs"
    by (rule elements_join)
  then have "elements p = [] # cs"
    using cs(1) by simp
  moreover have "elements p = elements root @ elements ?rel"
    using p elements_append [of root ?rel] by simp
  ultimately have eq: "elements root @ elements ?rel = [] # cs"
    by simp
  obtain r rs where "elements root = r # rs"
    by (cases "elements root") simp_all
  with eq have "cs = rs @ elements ?rel" by simp
  with cs(2) show ?thesis by simp
qed

lemma Clean_relative_elements:
  assumes "\<forall>c \<in> set (elements z). path_element c"
  shows "Clean z = z"
proof -
  have "\<not> path_element []"
    by (simp add: path_element_def)
  have "z \<noteq> []"
  proof
    assume "z = []"
    with assms have "path_element []" by simp
    with \<open>\<not> path_element []\<close> show False ..
  qed
  moreover have "\<not> HasPrefix z ''/''"
  proof
    assume "HasPrefix z ''/''"
    then obtain y where "z = CHR ''/'' # y"
      by (auto simp: HasPrefix_def prefix_def)
    with assms have "path_element []" by simp
    with \<open>\<not> path_element []\<close> show False ..
  qed
  moreover have "clean_elems z = elements z"
    using assms by (simp add: clean_elems_def fold_clean_step_elements)
  ultimately show ?thesis
    by (simp add: Clean_def join_elements)
qed

lemma Join_hls_key:
  assumes "\<forall>c \<in> set (elements rel). path_element c" "path_element uid" "path_element upid"
  shows "Join [''hls/'' @ uid @ ''/'' @ upid, rel] = ''hls/'' @ uid @ ''/'' @ upid @ ''/'' @ rel"
proof -
  have "rel \<noteq> []"
    using assms(1) by (cases rel) (auto simp: path_element_def)
  then have "Join [''hls/'' @ uid @ ''/'' @ upid, rel]
      = Clean ((''hls'' @ CHR ''/'' # uid @ CHR ''/'' # upid) @ CHR ''/'' # rel)"
    by (simp add: Join_def join_with_def)
  moreover have "elements ((''hls'' @ CHR ''/'' # uid @ CHR ''/'' # upid) @ CHR ''/'' # rel)
      = [''hls'', uid, upid] @ elements rel"
    using assms(2,3) 
    by (simp only: elements_append elements_single path_element_def) (simp add: elements_single)
  moreover have "path_element ''hls''"
    by (simp add: path_element_def)
  ultimately show ?thesis
    using assms by (simp add: Clean_relative_elements)
qed

lemma clean_step_empty [simp]: "clean_step r [] st = st"
  by (simp add: clean_step_def)

lemma Join_below:
  assumes "rs \<noteq> []" "\<forall>c \<in> set rs. path_element c" "path_element name"
  shows "Join [CHR ''/'' # join_with ''/'' rs, name] = CHR ''/'' # join_with ''/'' rs @ ''/'' @ name"
proof -
  let ?z = "(CHR ''/'' # join_with ''/'' rs) @ CHR ''/'' # name"
  have noslash: "\<forall>c \<in> set rs. CHR ''/'' \<notin> set c" "CHR ''/'' \<notin> set name"
    using assms(2,3) by (simp_all add: path_element_def)
  have "name \<noteq> []" using assms(3) by (simp add: path_element_def)
  then have "Join [CHR ''/'' # join_with ''/'' rs, name] = Clean ?z"
    by (simp add: Join_def join_with_def)
  have "elements ?z = [] # rs @ [name]"
    using elements_join [OF assms(1) noslash(1)] noslash(2)
    by (simp add: elements_append elements_single)
  moreover have "fold (clean_step True) (rs @ [name]) [] = rev (rs @ [name]) @ []"
    using assms(2,3) by (intro fold_clean_step_elements) simp
  ultimately have "clean_elems ?z = rs @ [name]"
    by (simp add: clean_elems_def HasPrefix_def del: fold_append)
  with \<open>Join [CHR ''/'' # join_with ''/'' rs, name] = Clean ?z\<close>
  show ?thesis
    using assms(1) by (simp add: Clean_def HasPrefix_def join_with_snoc)
qed

lemma Join_hls_root:
  assumes "HasPrefix work ''/''"
  shows "\<exists>rs. rs \<noteq> [] \<and> (\<forall>c \<in> set rs. path_element c)
           \<and> Join [work, ''hls''] = CHR ''/'' # join_with ''/'' rs"
proof -
  let ?z = "work @ CHR ''/'' # ''hls''"
  let ?st = "fold (clean_step True) (elements work) []"
  have "work \<noteq> []" using assms by (auto simp: HasPrefix_def)
  then have J: "Join [work, ''hls''] = Clean ?z"
    by (simp add: Join_def join_with_def)
  have rooted: "HasPrefix ?z ''/''"
    using assms by (auto simp: HasPrefix_def)
  have "elements ?z = elements work @ [''hls'']"
    by (simp add: elements_append elements_single)
  then have "clean_elems ?z = rev (clean_step True ''hls'' ?st)"
    using rooted by (simp add: clean_elems_def)
  also have "\<dots> = rev ?st @ [''hls'']"
    by (simp add: clean_step_def)
  finally have ce: "clean_elems ?z = rev ?st @ [''hls'']" .
  have "\<forall>d \<in> set ?st. path_element d"
    by (intro fold_clean_step_rooted_invariant) (simp_all add: elements_no_slash)
  then have "\<forall>c \<in> set (rev ?st @ [''hls'']). path_element c"
    by (simp add: path_element_def)
  moreover have "Join [work, ''hls''] = CHR ''/'' # join_with ''/'' (rev ?st @ [''hls''])"
    using J rooted ce by (simp add: Clean_def)
  ultimately show ?thesis by blast
qed

section \<open>Properties of the job handler\<close>

lemmas example_job_defs = example_env_def example_event_def

text \<open>
  Claim C7: for every upload event in which \<open>uploadId\<close>, \<open>userId\<close> or \<open>rawVideoPath\<close> is
  empty, \<open>Handle\<close> returns the error "missing required fields" and performs no effect at
  all: no workspace is created and no storage is accessed. The outcome is the same in
  every environment, so no retry can change it.
\<close>

theorem C7_missing_field_rejected:
  assumes "uploadId evt = [] \<or> userId evt = [] \<or> rawVideoPath evt = []"
  shows "Handle e (Some evt) = (Inl MissingRequiredFields, [])"
  using assms by (auto simp: Handle_def)

text \<open>Claim C7 at the example event with its user id removed.\<close>

theorem C7_missing_field_witness:
  "userId (example_event\<lparr>userId := []\<rparr>) = []
   \<and> Handle example_env (Some (example_event\<lparr>userId := []\<rparr>)) = (Inl MissingRequiredFields, [])"
  using C7_missing_field_rejected [of "example_event\<lparr>userId := []\<rparr>" example_env]
  by simp

lemma encode_ladder_effects:
  "\<forall>x \<in> set (snd (encode_ladder e input outRoot ladder fs)). is_preparation x"
proof (induction ladder arbitrary: fs)
  case Nil
  show ?case by simp
next
  case (Cons res ladder)
  show ?case
  proof (cases "ffmpeg_hls e input res")
    case None
    then show ?thesis by (simp add: Let_def is_preparation_def)
  next
    case (Some out)
    let ?fs = "fold (\<lambda>f. write_file (Join [Join [outRoot, res], fst f]) (snd f)) out fs"
    from Cons.IH [of ?fs] Some show ?thesis
      by (cases "encode_ladder e input outRoot ladder ?fs") (simp add: Let_def is_preparation_def)
  qed
qed

lemma encode_ladder_fails:
  assumes "r \<in> set ladder" "ffmpeg_hls e input r = None"
  shows "isl (fst (encode_ladder e input outRoot ladder fs))"
  using assms(1)
proof (induction ladder arbitrary: fs)
  case Nil
  then show ?case by simp
next
  case (Cons res ladder)
  show ?case
  proof (cases "ffmpeg_hls e input res")
    case None
    then show ?thesis by (simp add: Let_def)
  next
    case (Some out)
    with assms(2) Cons.prems have "r \<in> set ladder" by auto
    let ?fs = "fold (\<lambda>f. write_file (Join [Join [outRoot, res], fst f]) (snd f)) out fs"
    from Cons.IH [OF \<open>r \<in> set ladder\<close>, of ?fs] Some show ?thesis
      by (cases "encode_ladder e input outRoot ladder ?fs") (simp add: Let_def)
  qed
qed

lemma DownloadTo_effects: "\<forall>x \<in> set (snd (DownloadTo e k p)). is_preparation x"
  by (auto simp: DownloadTo_def is_preparation_def split: option.splits)

lemma DownloadTo_result: "DownloadTo e k p = (Inr input, xs) \<Longrightarrow> raw_object e k = Some input"
  by (auto simp: DownloadTo_def split: option.splits if_splits)

lemma transcode_and_upload_encoder_fails:
  assumes "r \<in> set (ladder_of evt)"
    and "\<forall>input. raw_object e (rawVideoPath evt) = Some input \<longrightarrow> ffmpeg_hls e input r = None"
  shows "isl (fst (transcode_and_upload e evt work))
       \<and> (\<forall>x \<in> set (snd (transcode_and_upload e evt work)). is_preparation x)"
proof (cases "DownloadTo e (rawVideoPath evt) (Join [work, ''input.mp4''])")
  case (Pair res xs)
  have xs: "\<forall>x \<in> set xs. is_preparation x"
    using DownloadTo_effects [of e "rawVideoPath evt" "Join [work, ''input.mp4'']"] Pair by simp
  show ?thesis
  proof (cases res)
    case (Inl err)
    with Pair xs show ?thesis by (simp add: transcode_and_upload_def)
  next
    case (Inr input)
    with Pair have "raw_object e (rawVideoPath evt) = Some input"
      by (auto dest: DownloadTo_result)
    with assms(2) have none: "ffmpeg_hls e input r = None" by simp
    let ?fs = "write_file (Join [work, ''input.mp4'']) input []"
    let ?out = "Join [work, ''hls'']"
    obtain res2 ys where enc: "encode_ladder e input ?out (ladder_of evt) ?fs = (res2, ys)"
      by (cases "encode_ladder e input ?out (ladder_of evt) ?fs")
    have "isl res2"
      using encode_ladder_fails [OF assms(1) none, of ?out ?fs] enc by simp
    then obtain err where res2: "res2 = Inl err" by (cases res2) auto
    have ys: "\<forall>x \<in> set ys. is_preparation x"
      using encode_ladder_effects [of e input ?out "ladder_of evt" ?fs] enc by simp
    show ?thesis
      using Pair Inr enc res2 xs ys
      by (auto simp: transcode_and_upload_def Let_def is_preparation_def)
  qed
qed

lemma preparation_only:
  assumes "\<forall>x \<in> set xs. is_preparation x"
  shows "uploaded_keys xs = []" and "published xs = []" and "processed_after xs objs = objs"
    and "WriteFile p \<notin> set xs"
proof -
  show "uploaded_keys xs = []"
    using assms by (induction xs) (auto simp: uploaded_keys_def is_preparation_def split: effect.splits)
  show "published xs = []"
    using assms by (induction xs) (auto simp: published_def is_preparation_def split: effect.splits)
  show "processed_after xs objs = objs"
    using assms
    by (induction xs arbitrary: objs)
      (auto simp: processed_after_def apply_effect_def is_preparation_def split: effect.splits)
  show "WriteFile p \<notin> set xs"
    using assms by (auto simp: is_preparation_def)
qed

lemma Handle_encoder_fails:
  assumes "r \<in> set (ladder_of evt)"
    and "\<forall>input. raw_object e (rawVideoPath evt) = Some input \<longrightarrow> ffmpeg_hls e input r = None"
  shows "isl (fst (Handle e (Some evt))) \<and> (\<forall>x \<in> set (snd (Handle e (Some evt))). is_preparation x)"
proof -
  let ?work = "Join [TempDir e, ''transcoder-'' @ uploadId evt]"
  obtain res xs where tu: "transcode_and_upload e evt ?work = (res, xs)"
    by (cases "transcode_and_upload e evt ?work")
  with transcode_and_upload_encoder_fails [OF assms, of ?work]
  obtain err where res: "res = Inl err" and xs: "\<forall>x \<in> set xs. is_preparation x"
    by (cases res) auto
  then show ?thesis
    using tu by (auto simp: Handle_def run_job_def Let_def is_preparation_def)
qed

text \<open>
  Claim C4: if the encoder fails on some rendition of the ladder (whatever input the
  download delivers), \<open>Handle\<close> returns an error, and among its effects there is no
  upload, attempted or completed, no publication and no write of the master playlist:
  the processed bucket is left as it was and no completion event is emitted.
\<close>

theorem C4_encoder_failure_publishes_nothing:
  assumes "r \<in> set (ladder_of evt)"
    and "\<forall>input. raw_object e (rawVideoPath evt) = Some input \<longrightarrow> ffmpeg_hls e input r = None"
  shows "isl (fst (Handle e (Some evt)))
       \<and> uploaded_keys (snd (Handle e (Some evt))) = []
       \<and> published (snd (Handle e (Some evt))) = []
       \<and> processed_after (snd (Handle e (Some evt))) objs = objs
       \<and> (\<forall>p. WriteFile p \<notin> set (snd (Handle e (Some evt))))"
  using Handle_encoder_fails [OF assms] preparation_only [of "snd (Handle e (Some evt))"]
  by blast

text \<open>Claim C4 at the example job with an encoder that fails on the second rendition.\<close>

theorem C4_encoder_failure_witness:
  "''360p'' \<in> set (ladder_of example_event)
   \<and> Handle example_env_encoder_fails (Some example_event) =
       (Inl (FfmpegError ''360p''),
        [MkdirAll ''/tmp/transcoder-abc123'', MkdirAll ''/tmp/transcoder-abc123'',
         Create ''/tmp/transcoder-abc123/input.mp4'', Download ''raw/u1/abc123.mp4'',
         MkdirAll ''/tmp/transcoder-abc123/hls'',
         MkdirAll ''/tmp/transcoder-abc123/hls/720p'',
         RunHLS ''/tmp/transcoder-abc123/hls/720p'' ''720p'',
         MkdirAll ''/tmp/transcoder-abc123/hls/360p'',
         RunHLS ''/tmp/transcoder-abc123/hls/360p'' ''360p'',
         RemoveAll ''/tmp/transcoder-abc123''])
   \<and> isl (fst (Handle example_env_encoder_fails (Some example_event)))
   \<and> uploaded_keys (snd (Handle example_env_encoder_fails (Some example_event))) = []
   \<and> published (snd (Handle example_env_encoder_fails (Some example_event))) = []
   \<and> processed_after (snd (Handle example_env_encoder_fails (Some example_event))) Map.empty
       = Map.empty"
proof -
  have 1: "''360p'' \<in> set (ladder_of example_event)"
    by (simp add: ladder_of_def example_event_def)
  have 2: "\<forall>input. raw_object example_env_encoder_fails (rawVideoPath example_event) = Some input
             \<longrightarrow> ffmpeg_hls example_env_encoder_fails input ''360p'' = None"
    by (simp add: example_env_encoder_fails_def)
  have run: "Handle example_env_encoder_fails (Some example_event) =
       (Inl (FfmpegError ''360p''),
        [MkdirAll ''/tmp/transcoder-abc123'', MkdirAll ''/tmp/transcoder-abc123'',
         Create ''/tmp/transcoder-abc123/input.mp4'', Download ''raw/u1/abc123.mp4'',
         MkdirAll ''/tmp/transcoder-abc123/hls'',
         MkdirAll ''/tmp/transcoder-abc123/hls/720p'',
         RunHLS ''/tmp/transcoder-abc123/hls/720p'' ''720p'',
         MkdirAll ''/tmp/transcoder-abc123/hls/360p'',
         RunHLS ''/tmp/transcoder-abc123/hls/360p'' ''360p'',
         RemoveAll ''/tmp/transcoder-abc123''])"
    by code_simp
  show ?thesis
    using C4_encoder_failure_publishes_nothing [OF 1 2, of Map.empty] 1 run
    by simp
qed


lemma published_append [simp]: "published (xs @ ys) = published xs @ published ys"
  by (simp add: published_def)

lemma uploaded_keys_append [simp]: "uploaded_keys (xs @ ys) = uploaded_keys xs @ uploaded_keys ys"
  by (simp add: uploaded_keys_def)

lemma published_simps [simp]:
  "published [] = []"
  "published (Publish j # xs) = j # published xs"
  "published (PublishFailed j # xs) = published xs"
  "published (MkdirAll p # xs) = published xs"
  "published (WriteFile p # xs) = published xs"
  "published (RunThumbnail p # xs) = published xs"
  "published (Upload k d # xs) = published xs"
  "published (UploadFailed k # xs) = published xs"
  "published (RemoveAll p # xs) = published xs"
  by (simp_all add: published_def)

lemma uploaded_keys_simps [simp]:
  "uploaded_keys [] = []"
  "uploaded_keys (Publish j # xs) = uploaded_keys xs"
  "uploaded_keys (PublishFailed j # xs) = uploaded_keys xs"
  "uploaded_keys (MkdirAll p # xs) = uploaded_keys xs"
  "uploaded_keys (WriteFile p # xs) = uploaded_keys xs"
  "uploaded_keys (RunThumbnail p # xs) = uploaded_keys xs"
  "uploaded_keys (Upload k d # xs) = k # uploaded_keys xs"
  "uploaded_keys (UploadFailed k # xs) = k # uploaded_keys xs"
  "uploaded_keys (RemoveAll p # xs) = uploaded_keys xs"
  by (simp_all add: uploaded_keys_def)

lemma upload_walk_published: "published (snd (upload_walk e root base files)) = []"
proof (induction files)
  case Nil
  show ?case by simp
next
  case (Cons f files)
  then show ?case
    by (cases "upload_walk e root base files")
      (simp add: Let_def UploadFile_def)
qed

lemma upload_walk_keys:
  "k \<in> set (uploaded_keys (snd (upload_walk e root base files))) \<Longrightarrow>
     \<exists>f \<in> set files. k = Join [base, TrimPrefix (fst f) (root @ ''/'')]"
proof (induction files)
  case Nil
  then show ?case by simp
next
  case (Cons f files)
  then show ?case
    by (cases "upload_walk e root base files")
      (auto simp: Let_def UploadFile_def split: if_splits)
qed

lemma upload_walk_complete:
  "fst (upload_walk e root base files) = Inr u \<Longrightarrow> f \<in> set files \<Longrightarrow>
     Upload (Join [base, TrimPrefix (fst f) (root @ ''/'')]) (snd f)
       \<in> set (snd (upload_walk e root base files))"
proof (induction files)
  case Nil
  then show ?case by simp
next
  case (Cons g files)
  then show ?case
    by (cases "upload_walk e root base files")
      (auto simp: Let_def UploadFile_def split: if_splits)
qed

lemma set_walk: "set (walk fs root) = {f \<in> set fs. HasPrefix (fst f) (root @ ''/'')}"
  by (auto simp: walk_def)

lemma write_file_invariant:
  assumes "\<forall>f \<in> set fs. abs_clean (fst f)" "abs_clean p"
  shows "\<forall>f \<in> set (write_file p d fs). abs_clean (fst f)"
  using assms by (auto simp: write_file_def)

lemma encoder_output_invariant:
  assumes "\<forall>f \<in> set fs. abs_clean (fst f)" "HasPrefix resDir ''/''"
  shows "\<forall>f \<in> set (fold (\<lambda>f. write_file (Join [resDir, fst f]) (snd f)) out fs). abs_clean (fst f)"
  using assms(1)
proof (induction out arbitrary: fs)
  case Nil
  then show ?case by simp
next
  case (Cons g out)
  have "\<forall>f \<in> set (write_file (Join [resDir, fst g]) (snd g) fs). abs_clean (fst f)"
    using Cons.prems assms(2) by (intro write_file_invariant Join_rooted)
  then show ?case
    using Cons.IH by simp
qed

lemma encode_ladder_invariant:
  assumes "HasPrefix outRoot ''/''"
  shows "\<forall>f \<in> set fs. abs_clean (fst f) \<Longrightarrow>
         encode_ladder e input outRoot ladder fs = (Inr fs', ys) \<Longrightarrow>
         \<forall>f \<in> set fs'. abs_clean (fst f)"
proof (induction ladder arbitrary: fs ys)
  case Nil
  then show ?case by simp
next
  case (Cons res ladder)
  show ?case
  proof (cases "ffmpeg_hls e input res")
    case None
    with Cons.prems(2) show ?thesis by (simp add: Let_def split: if_splits)
  next
    case (Some out)
    let ?resDir = "Join [outRoot, res]"
    let ?fs = "fold (\<lambda>f. write_file (Join [?resDir, fst f]) (snd f)) out fs"
    have "abs_clean ?resDir"
      using assms by (rule Join_rooted)
    then have "HasPrefix ?resDir ''/''"
      by (rule abs_clean_rooted)
    with Cons.prems(1) have inv: "\<forall>f \<in> set ?fs. abs_clean (fst f)"
      by (rule encoder_output_invariant)
    obtain r zs where rec: "encode_ladder e input outRoot ladder ?fs = (r, zs)"
      by (cases "encode_ladder e input outRoot ladder ?fs")
    with Cons.prems(2) Some have "r = Inr fs'"
      by (simp add: Let_def split: if_splits)
    with rec Cons.IH [OF inv] show ?thesis by simp
  qed
qed


lemma hls_key_below_base:
  assumes "abs_clean p" "HasPrefix p (root @ ''/'')" "root \<noteq> []"
    "path_element (userId evt)" "path_element (uploadId evt)"
  shows "Join [hls_base evt, TrimPrefix p (root @ ''/'')]
           = hls_base evt @ ''/'' @ TrimPrefix p (root @ ''/'')"
  using Join_hls_key [OF relative_part_clean [OF assms(1-3)] assms(4,5)]
  by (simp add: hls_base_def)

lemma transcode_and_upload_keys:
  assumes "HasPrefix work ''/''" "path_element (userId evt)" "path_element (uploadId evt)"
    and "k \<in> set (uploaded_keys (snd (transcode_and_upload e evt work)))"
  shows "HasPrefix k (hls_base evt @ ''/'')"
proof -
  let ?inputPath = "Join [work, ''input.mp4'']"
  let ?outRoot = "Join [work, ''hls'']"
  let ?masterPath = "Join [?outRoot, ''master.m3u8'']"
  have root: "abs_clean ?outRoot" using assms(1) by (rule Join_rooted)
  then have rooted: "HasPrefix ?outRoot ''/''" by (rule abs_clean_rooted)
  then have nonempty: "?outRoot \<noteq> []" by (auto simp: HasPrefix_def)
  obtain res xs where dl: "DownloadTo e (rawVideoPath evt) ?inputPath = (res, xs)"
    by (cases "DownloadTo e (rawVideoPath evt) ?inputPath")
  have xs: "uploaded_keys xs = []"
    using DownloadTo_effects [of e "rawVideoPath evt" ?inputPath] dl
    by (intro preparation_only) simp
  show ?thesis
  proof (cases res)
    case (Inl err)
    with dl xs assms(4) show ?thesis by (simp add: transcode_and_upload_def)
  next
    case (Inr input)
    let ?fs0 = "write_file ?inputPath input []"
    have inv0: "\<forall>f \<in> set ?fs0. abs_clean (fst f)"
      using assms(1) by (intro write_file_invariant Join_rooted) simp_all
    obtain res2 ys where enc: "encode_ladder e input ?outRoot (ladder_of evt) ?fs0 = (res2, ys)"
      by (cases "encode_ladder e input ?outRoot (ladder_of evt) ?fs0")
    have ys: "uploaded_keys ys = []"
      using encode_ladder_effects [of e input ?outRoot "ladder_of evt" ?fs0] enc
      by (intro preparation_only) simp
    show ?thesis
    proof (cases res2)
      case (Inl err)
      with dl Inr enc xs ys assms(4) show ?thesis
        by (simp add: transcode_and_upload_def Let_def split: if_splits)
    next
      case fs1: (Inr fs1)
      have inv1: "\<forall>f \<in> set fs1. abs_clean (fst f)"
        using encode_ladder_invariant [OF rooted inv0] enc fs1 by simp
      let ?fs2 = "write_file ?masterPath (buildMaster (userId evt) (uploadId evt) (ladder_of evt)) fs1"
      have inv2: "\<forall>f \<in> set ?fs2. abs_clean (fst f)"
        using inv1 rooted by (intro write_file_invariant Join_rooted)
      have "k \<in> set (uploaded_keys (snd (UploadDir e ?fs2 ?outRoot (hls_base evt))))"
        using dl Inr enc fs1 xs ys assms(4)
        by (auto simp: transcode_and_upload_def Let_def split: if_splits prod.splits sum.splits)
      then obtain f where f: "f \<in> set (walk ?fs2 ?outRoot)"
        and k: "k = Join [hls_base evt, TrimPrefix (fst f) (?outRoot @ ''/'')]"
        unfolding UploadDir_def by (blast dest: upload_walk_keys)
      from f have "abs_clean (fst f)" and "HasPrefix (fst f) (?outRoot @ ''/'')"
        using inv2 by (auto simp: set_walk)
      then have "Join [hls_base evt, TrimPrefix (fst f) (?outRoot @ ''/'')]
          = hls_base evt @ ''/'' @ TrimPrefix (fst f) (?outRoot @ ''/'')"
        using nonempty assms(2,3) by (rule hls_key_below_base)
      with k show ?thesis by (simp add: HasPrefix_def)
    qed
  qed
qed


lemma master_path:
  assumes "HasPrefix work ''/''"
  shows "Join [Join [work, ''hls''], ''master.m3u8''] = Join [work, ''hls''] @ ''/master.m3u8''"
proof -
  obtain rs where rs: "rs \<noteq> []" "\<forall>c \<in> set rs. path_element c"
    "Join [work, ''hls''] = CHR ''/'' # join_with ''/'' rs"
    using Join_hls_root [OF assms] by blast
  have "path_element ''master.m3u8''"
    by (simp add: path_element_def)
  with rs(1,2) have "Join [CHR ''/'' # join_with ''/'' rs, ''master.m3u8'']
      = CHR ''/'' # join_with ''/'' rs @ ''/'' @ ''master.m3u8''"
    by (rule Join_below)
  with rs(3) show ?thesis by simp
qed

lemma master_key:
  assumes "path_element (userId evt)" "path_element (uploadId evt)"
  shows "Join [hls_base evt, ''master.m3u8''] = hls_base evt @ ''/master.m3u8''"
proof -
  have "\<forall>c \<in> set (elements ''master.m3u8''). path_element c"
    by (simp add: path_element_def)
  from Join_hls_key [OF this assms] show ?thesis
    by (simp add: hls_base_def)
qed

lemma transcode_and_upload_master:
  assumes "HasPrefix work ''/''" "path_element (userId evt)" "path_element (uploadId evt)"
    and "transcode_and_upload e evt work = (Inr input, xs)"
  shows "Upload (hls_base evt @ ''/master.m3u8'')
           (buildMaster (userId evt) (uploadId evt) (ladder_of evt)) \<in> set xs"
proof -
  let ?inputPath = "Join [work, ''input.mp4'']"
  let ?outRoot = "Join [work, ''hls'']"
  let ?masterPath = "Join [?outRoot, ''master.m3u8'']"
  let ?master = "buildMaster (userId evt) (uploadId evt) (ladder_of evt)"
  obtain ds where dl: "DownloadTo e (rawVideoPath evt) ?inputPath = (Inr input, ds)"
    using assms(4)
    by (auto simp: transcode_and_upload_def Let_def split: prod.splits sum.splits if_splits)
  let ?fs0 = "write_file ?inputPath input []"
  obtain fs1 ys where enc: "encode_ladder e input ?outRoot (ladder_of evt) ?fs0 = (Inr fs1, ys)"
    using assms(4) dl
    by (auto simp: transcode_and_upload_def Let_def split: prod.splits sum.splits if_splits)
  let ?fs2 = "write_file ?masterPath ?master fs1"
  obtain u zs where up: "UploadDir e ?fs2 ?outRoot (hls_base evt) = (Inr u, zs)"
    and xs: "xs = ds @ MkdirAll ?outRoot # ys @ WriteFile ?masterPath # zs"
    using assms(4) dl enc
    by (auto simp: transcode_and_upload_def Let_def split: prod.splits sum.splits if_splits)
  have mp: "?masterPath = ?outRoot @ ''/master.m3u8''"
    using assms(1) by (rule master_path)
  have "(?masterPath, ?master) \<in> set ?fs2"
    by (simp add: write_file_def)
  moreover have "HasPrefix ?masterPath (?outRoot @ ''/'')"
    by (simp add: mp HasPrefix_def)
  ultimately have "(?masterPath, ?master) \<in> set (walk ?fs2 ?outRoot)"
    by (simp add: set_walk)
  moreover have "fst (upload_walk e ?outRoot (hls_base evt) (walk ?fs2 ?outRoot)) = Inr u"
    using up by (simp add: UploadDir_def)
  ultimately have "Upload (Join [hls_base evt, TrimPrefix (fst (?masterPath, ?master)) (?outRoot @ ''/'')])
        (snd (?masterPath, ?master)) \<in> set (snd (upload_walk e ?outRoot (hls_base evt) (walk ?fs2 ?outRoot)))"
    by (rule upload_walk_complete [rotated])
  moreover have "TrimPrefix ?masterPath (?outRoot @ ''/'') = ''master.m3u8''"
    by (simp add: mp TrimPrefix_def HasPrefix_def)
  ultimately have "Upload (hls_base evt @ ''/master.m3u8'') ?master \<in> set zs"
    using up master_key [OF assms(2,3)] by (simp add: UploadDir_def)
  then show ?thesis by (simp add: xs)
qed

lemma thumbnail_and_publish_keys:
  "k \<in> set (uploaded_keys (snd (thumbnail_and_publish e evt work input base))) \<Longrightarrow>
     k = ''thumbnails/'' @ userId evt @ ''/'' @ uploadId evt @ ''.jpg''"
  by (auto simp: thumbnail_and_publish_def UploadFile_def Let_def
      split: option.splits if_splits)

lemma work_rooted:
  assumes "HasPrefix (TempDir e) ''/''"
  shows "HasPrefix (Join [TempDir e, ''transcoder-'' @ uploadId evt]) ''/''"
  by (rule abs_clean_rooted [OF Join_rooted [OF assms]])

lemma Handle_cases:
  assumes "work = Join [TempDir e, ''transcoder-'' @ uploadId evt]"
  obtains
    (rejected) "Handle e (Some evt) = (Inl MissingRequiredFields, [])"
  | (no_workspace) "Handle e (Some evt) = (Inl (OsError work), [MkdirAll work])"
  | (failed) err xs where "transcode_and_upload e evt work = (Inl err, xs)"
      "Handle e (Some evt) = (Inl err, MkdirAll work # xs @ [RemoveAll work])"
  | (uploaded) input xs r ts where "transcode_and_upload e evt work = (Inr input, xs)"
      "thumbnail_and_publish e evt work input (hls_base evt) = (r, ts)"
      "Handle e (Some evt) = (r, MkdirAll work # (xs @ ts) @ [RemoveAll work])"
proof (cases "uploadId evt = [] \<or> userId evt = [] \<or> rawVideoPath evt = []")
  case True
  then show ?thesis using rejected by (auto simp: Handle_def)
next
  case valid: False
  show ?thesis
  proof (cases "mkdir_ok e work")
    case False
    with valid assms show ?thesis using no_workspace by (auto simp: Handle_def Let_def)
  next
    case True
    obtain res xs where tu: "transcode_and_upload e evt work = (res, xs)"
      by (cases "transcode_and_upload e evt work")
    show ?thesis
    proof (cases res)
      case (Inl err)
      with tu valid True assms show ?thesis
        using failed [of err xs] by (auto simp: Handle_def run_job_def Let_def)
    next
      case (Inr input)
      obtain r ts where tp: "thumbnail_and_publish e evt work input (hls_base evt) = (r, ts)"
        by (cases "thumbnail_and_publish e evt work input (hls_base evt)")
      with Inr tu valid True assms show ?thesis
        using uploaded [of input xs r ts] by (auto simp: Handle_def run_job_def Let_def)
    qed
  qed
qed

text \<open>
  The keys of a job whose ids are clean: when the user id and the upload id are single
  clean path elements (not empty, without a slash, neither \<open>.\<close> nor \<open>..\<close>) and the
  temporary directory is absolute, every key that \<open>Handle\<close> uploads or attempts to
  upload is below \<open>hls/<userId>/<uploadId>/\<close> or is \<open>thumbnails/<userId>/<uploadId>.jpg\<close>,
  and a successful job has uploaded the master playlist at
  \<open>hls/<userId>/<uploadId>/master.m3u8\<close>, in every environment.
\<close>

lemma output_paths_clean_ids:
  assumes "HasPrefix (TempDir e) ''/''"
    and "path_element (userId evt)" and "path_element (uploadId evt)"
  shows "(\<forall>k \<in> set (uploaded_keys (snd (Handle e (Some evt)))).
            HasPrefix k (''hls/'' @ userId evt @ ''/'' @ uploadId evt @ ''/'')
            \<or> k = ''thumbnails/'' @ userId evt @ ''/'' @ uploadId evt @ ''.jpg'')
       \<and> (fst (Handle e (Some evt)) = Inr () \<longrightarrow>
            Upload (''hls/'' @ userId evt @ ''/'' @ uploadId evt @ ''/master.m3u8'')
              (buildMaster (userId evt) (uploadId evt) (ladder_of evt))
              \<in> set (snd (Handle e (Some evt))))"
proof -
  define work where "work = Join [TempDir e, ''transcoder-'' @ uploadId evt]"
  have rooted: "HasPrefix work ''/''"
    unfolding work_def using assms(1) by (rule work_rooted)
  have base: "hls_base evt @ ''/'' = ''hls/'' @ userId evt @ ''/'' @ uploadId evt @ ''/''"
    "hls_base evt @ ''/master.m3u8'' = ''hls/'' @ userId evt @ ''/'' @ uploadId evt @ ''/master.m3u8''"
    by (simp_all add: hls_base_def)
  from work_def show ?thesis
  proof (cases rule: Handle_cases)
    case rejected
    then show ?thesis by simp
  next
    case no_workspace
    then show ?thesis by simp
  next
    case (failed err xs)
    have "\<forall>k \<in> set (uploaded_keys xs). HasPrefix k (hls_base evt @ ''/'')"
      using transcode_and_upload_keys [OF rooted assms(2,3), of _ e] failed(1) by simp
    with failed(2) show ?thesis by (simp add: base)
  next
    case (uploaded input xs r ts)
    have "\<forall>k \<in> set (uploaded_keys xs). HasPrefix k (hls_base evt @ ''/'')"
      using transcode_and_upload_keys [OF rooted assms(2,3), of _ e] uploaded(1) by simp
    moreover have "\<forall>k \<in> set (uploaded_keys ts).
        k = ''thumbnails/'' @ userId evt @ ''/'' @ uploadId evt @ ''.jpg''"
      using thumbnail_and_publish_keys [of _ e evt work input "hls_base evt"] uploaded(2) by simp
    moreover have "Upload (hls_base evt @ ''/master.m3u8'')
           (buildMaster (userId evt) (uploadId evt) (ladder_of evt)) \<in> set xs"
      using rooted assms(2,3) uploaded(1) by (rule transcode_and_upload_master)
    ultimately show ?thesis
      using uploaded(3) by (auto simp: base)
  qed
qed

text \<open>
  Claim C8 at the example event with the user id \<open>..\<close>: the job succeeds, but
  \<open>UploadDir\<close> builds its keys with \<open>filepath.Join\<close>, which cleans them, so the HLS tree
  and the master playlist are uploaded below \<open>abc123/\<close> and not below
  \<open>hls/<userId>/<uploadId>/\<close>, while the thumbnail key and the URLs of the completion
  event are formatted from the ids as they are: the event announces the master
  playlist at \<open>hls/../abc123/master.m3u8\<close>, where nothing was uploaded.
\<close>

theorem C8_dot_segment_paths_diverge:
  "fst (Handle example_env (Some example_event_dotdot)) = Inr ()
   \<and> uploaded_keys (snd (Handle example_env (Some example_event_dotdot))) =
       [''abc123/360p/index.m3u8'', ''abc123/360p/seg_000.ts'', ''abc123/720p/index.m3u8'',
        ''abc123/720p/seg_000.ts'', ''abc123/master.m3u8'', ''thumbnails/../abc123.jpg'']
   \<and> \<not> HasPrefix ''abc123/master.m3u8''
         (''hls/'' @ userId example_event_dotdot @ ''/'' @ uploadId example_event_dotdot @ ''/'')
   \<and> map (\<lambda>j. json_field j ''hls'') (published (snd (Handle example_env (Some example_event_dotdot))))
       = [Some (JObject [(''masterUrl'', JString
            ''http://cdn.example/processed-videos/hls/../abc123/master.m3u8'')])]
   \<and> map (\<lambda>j. json_field j ''thumbnailUrl'')
         (published (snd (Handle example_env (Some example_event_dotdot))))
       = [Some (JString ''http://cdn.example/processed-videos/thumbnails/../abc123.jpg'')]"
  by code_simp

text \<open>The keys of the example job, whose ids are clean.\<close>

lemma output_paths_example:
  "HasPrefix (TempDir example_env) ''/''
   \<and> path_element (userId example_event) \<and> path_element (uploadId example_event)
   \<and> fst (Handle example_env (Some example_event)) = Inr ()
   \<and> uploaded_keys (snd (Handle example_env (Some example_event))) =
       [''hls/u1/abc123/360p/index.m3u8'', ''hls/u1/abc123/360p/seg_000.ts'',
        ''hls/u1/abc123/720p/index.m3u8'', ''hls/u1/abc123/720p/seg_000.ts'',
        ''hls/u1/abc123/master.m3u8'', ''thumbnails/u1/abc123.jpg'']
   \<and> Upload ''hls/u1/abc123/master.m3u8''
        ''#EXTM3U\<newline>#EXT-X-STREAM-INF:BANDWIDTH=2928000,RESOLUTION=1280x720\<newline>720p/index.m3u8\<newline>#EXT-X-STREAM-INF:BANDWIDTH=864000,RESOLUTION=640x360\<newline>360p/index.m3u8\<newline>''
        \<in> set (snd (Handle example_env (Some example_event)))"
proof -
  have 1: "HasPrefix (TempDir example_env) ''/''"
    and 2: "path_element (userId example_event)" and 3: "path_element (uploadId example_event)"
    by (simp_all add: example_env_def example_event_def HasPrefix_def path_element_def)
  have ok: "fst (Handle example_env (Some example_event)) = Inr ()"
    by code_simp
  have keys: "uploaded_keys (snd (Handle example_env (Some example_event))) =
       [''hls/u1/abc123/360p/index.m3u8'', ''hls/u1/abc123/360p/seg_000.ts'',
        ''hls/u1/abc123/720p/index.m3u8'', ''hls/u1/abc123/720p/seg_000.ts'',
        ''hls/u1/abc123/master.m3u8'', ''thumbnails/u1/abc123.jpg'']"
    by code_simp
  have master: "buildMaster (userId example_event) (uploadId example_event) (ladder_of example_event)
      = ''#EXTM3U\<newline>#EXT-X-STREAM-INF:BANDWIDTH=2928000,RESOLUTION=1280x720\<newline>720p/index.m3u8\<newline>#EXT-X-STREAM-INF:BANDWIDTH=864000,RESOLUTION=640x360\<newline>360p/index.m3u8\<newline>''"
    by (simp add: buildMaster_def ladder_of_def example_event_def master_step_def index_int_def
        index_str_def bw_def resMap_def fmt_d_table)
  have ids: "userId example_event = ''u1''" "uploadId example_event = ''abc123''"
    by (simp_all add: example_event_def)
  show ?thesis
    using output_paths_clean_ids [OF 1 2 3] 1 2 3 ok keys master
    by (simp add: ids)
qed

lemma transcode_and_upload_published:
  "published (snd (transcode_and_upload e evt work)) = []"
proof -
  have dl: "published xs = []" if "DownloadTo e k p = (r, xs)" for k p r xs
    using DownloadTo_effects [of e k p] that by (intro preparation_only) simp
  have enc: "published ys = []" if "encode_ladder e input outRoot ladder fs = (r, ys)"
    for input outRoot ladder fs r ys
    using encode_ladder_effects [of e input outRoot ladder fs] that
    by (intro preparation_only) simp
  have up: "published zs = []" if "UploadDir e fs root base = (r, zs)" for fs root base r zs
    using upload_walk_published [of e root base "walk fs root"] that
    by (simp add: UploadDir_def)
  show ?thesis
    by (auto simp: transcode_and_upload_def Let_def split: prod.splits sum.splits
        dest: dl enc up)
qed

lemma thumbnail_failure:
  assumes "ffmpeg_thumbnail e input = None
           \<or> \<not> put_ok e (''thumbnails/'' @ userId evt @ ''/'' @ uploadId evt @ ''.jpg'')"
  shows "fst (thumbnail_and_publish e evt work input base)
           = (if publish_ok e (completion_event e evt base []) then Inr () else Inl PublishError)"
    and "published (snd (thumbnail_and_publish e evt work input base))
           = (if publish_ok e (completion_event e evt base []) then [completion_event e evt base []]
              else [])"
  using assms
  by (auto simp: thumbnail_and_publish_def UploadFile_def Let_def split: option.splits)

text \<open>
  Claim C9: when the job has uploaded the HLS tree (every step before the thumbnail
  succeeded) and the thumbnail cannot be extracted or cannot be uploaded, the outcome
  of \<open>Handle\<close> is the outcome of the publication alone: the job succeeds when the
  publication succeeds, and the completion event published has \<open>ready\<close> true and an
  empty \<open>thumbnailUrl\<close>. There is no error of the job that stems from the thumbnail.
\<close>

theorem C9_thumbnail_failure_not_fatal:
  assumes "uploadId evt \<noteq> []" and "userId evt \<noteq> []" and "rawVideoPath evt \<noteq> []"
    and "mkdir_ok e (Join [TempDir e, ''transcoder-'' @ uploadId evt])"
    and "transcode_and_upload e evt (Join [TempDir e, ''transcoder-'' @ uploadId evt]) = (Inr input, xs)"
    and "ffmpeg_thumbnail e input = None
         \<or> \<not> put_ok e (''thumbnails/'' @ userId evt @ ''/'' @ uploadId evt @ ''.jpg'')"
  shows "fst (Handle e (Some evt))
           = (if publish_ok e (completion_event e evt (hls_base evt) []) then Inr ()
              else Inl PublishError)
       \<and> published (snd (Handle e (Some evt)))
           = (if publish_ok e (completion_event e evt (hls_base evt) [])
              then [completion_event e evt (hls_base evt) []] else [])
       \<and> json_field (completion_event e evt (hls_base evt) []) ''thumbnailUrl'' = Some (JString [])
       \<and> json_field (completion_event e evt (hls_base evt) []) ''ready'' = Some (JBool True)"
proof -
  let ?work = "Join [TempDir e, ''transcoder-'' @ uploadId evt]"
  obtain r ts where tp: "thumbnail_and_publish e evt ?work input (hls_base evt) = (r, ts)"
    by (cases "thumbnail_and_publish e evt ?work input (hls_base evt)")
  have H: "Handle e (Some evt) = (r, MkdirAll ?work # (xs @ ts) @ [RemoveAll ?work])"
    using assms(1-5) tp by (simp add: Handle_def run_job_def Let_def)
  have "published xs = []"
    using transcode_and_upload_published [of e evt ?work] assms(5) by simp
  moreover have "r = (if publish_ok e (completion_event e evt (hls_base evt) []) then Inr ()
              else Inl PublishError)"
    using thumbnail_failure(1) [OF assms(6), of ?work "hls_base evt"] tp by simp
  moreover have "published ts = (if publish_ok e (completion_event e evt (hls_base evt) [])
              then [completion_event e evt (hls_base evt) []] else [])"
    using thumbnail_failure(2) [OF assms(6), of ?work "hls_base evt"] tp by simp
  ultimately show ?thesis
    by (simp add: H json_field_def completion_event_def)
qed

text \<open>Claim C9 at the example job with a thumbnail command that fails.\<close>

theorem C9_thumbnail_failure_witness:
  "fst (Handle example_env_no_thumbnail (Some example_event)) = Inr ()
   \<and> published (snd (Handle example_env_no_thumbnail (Some example_event))) =
       [JObject
         [(''uploadId'', JString ''abc123''), (''userId'', JString ''u1''),
          (''title'', JString ''Clip''), (''description'', JString []),
          (''tags'', JArray []), (''category'', JString []),
          (''isPrivate'', JBool False), (''originalFilename'', JString ''clip.mp4''),
          (''rawVideoPath'', JString ''raw/u1/abc123.mp4''),
          (''hls'', JObject [(''masterUrl'',
              JString ''http://cdn.example/processed-videos/hls/u1/abc123/master.m3u8'')]),
          (''thumbnailUrl'', JString []), (''ready'', JBool True)]]"
proof -
  let ?work = "Join [TempDir example_env_no_thumbnail, ''transcoder-'' @ uploadId example_event]"
  have 1: "uploadId example_event \<noteq> []" and 2: "userId example_event \<noteq> []"
    and 3: "rawVideoPath example_event \<noteq> []"
    by (simp_all add: example_event_def)
  have 4: "mkdir_ok example_env_no_thumbnail ?work"
    by (simp add: example_env_no_thumbnail_def example_env_def)
  have "fst (transcode_and_upload example_env_no_thumbnail example_event ?work) = Inr ''RAW''"
    by code_simp
  then have 5: "transcode_and_upload example_env_no_thumbnail example_event ?work
      = (Inr ''RAW'', snd (transcode_and_upload example_env_no_thumbnail example_event ?work))"
    by (simp add: prod_eq_iff)
  have 6: "ffmpeg_thumbnail example_env_no_thumbnail ''RAW'' = None
      \<or> \<not> put_ok example_env_no_thumbnail
            (''thumbnails/'' @ userId example_event @ ''/'' @ uploadId example_event @ ''.jpg'')"
    by (simp add: example_env_no_thumbnail_def)
  have ok: "publish_ok example_env_no_thumbnail
      (completion_event example_env_no_thumbnail example_event (hls_base example_event) [])"
    by (simp add: example_env_no_thumbnail_def example_env_def)
  have ev: "completion_event example_env_no_thumbnail example_event (hls_base example_event) [] =
       JObject
         [(''uploadId'', JString ''abc123''), (''userId'', JString ''u1''),
          (''title'', JString ''Clip''), (''description'', JString []),
          (''tags'', JArray []), (''category'', JString []),
          (''isPrivate'', JBool False), (''originalFilename'', JString ''clip.mp4''),
          (''rawVideoPath'', JString ''raw/u1/abc123.mp4''),
          (''hls'', JObject [(''masterUrl'',
              JString ''http://cdn.example/processed-videos/hls/u1/abc123/master.m3u8'')]),
          (''thumbnailUrl'', JString []), (''ready'', JBool True)]"
    by code_simp
  show ?thesis
    using C9_thumbnail_failure_not_fatal [OF 1 2 3 4 5 6] ok
    by (simp add: ev)
qed

section \<open>The rewrite of the master playlist\<close>


lemma cut_char_none: "c \<notin> set s \<Longrightarrow> cut s [c] = None"
  by (induction s) auto

lemma Count_append [simp]: "Count (x @ y) c = Count x c + Count y c"
  by (simp add: Count_def)
































text \<open>
  The unescaped dot of the pattern matches any character, so on a text that the job
  handler does not write the rewrite can change a line.
\<close>

lemma rewrite_master_other_text:
  "rewrite_master ''#EXTM3U\<newline>720p/index-m3u8\<newline>'' = ''#EXTM3U\<newline>720p/index.m3u8\<newline>''"
  by code_simp



end
